theory Spec2Isabelle
  imports Complex_Main
begin

section \<open>Data model (shared/schema.ts)\<close>

datatype PlayerColor = Red | Green | Yellow | Blue

datatype GameMode = TwoPlayer | FourPlayer

record GamePiece =
  pieceId :: string
  pieceColor :: PlayerColor
  position :: int
  isSafe :: bool

record Player =
  playerId :: string
  playerName :: string
  playerColor :: "PlayerColor option"
  ready :: bool

record GameState =
  pieces :: "GamePiece list"
  currentTurnIndex :: nat
  diceValue :: "int option"
  lastDiceValue :: "int option"
  isFirstRollOfTurn :: bool
  waitingForMove :: bool
  winner :: "PlayerColor option"
  started :: bool

record GameRoom =
  code :: string
  players :: "Player list"
  gameMode :: GameMode
  gameState :: GameState
  createdAt :: int

text \<open>
  The two private maps of the class \<open>GameManager\<close>: room code to room, and participant
  id to room code. Every method below takes the manager and returns the updated one.
\<close>

record GameManager =
  rooms :: "string \<rightharpoonup> GameRoom"
  playerToRoom :: "string \<rightharpoonup> string"

text \<open>
  The exceptions the methods throw, named after the spec's taxonomy; the message of
  the source's \<open>Error\<close> is given with each. \<open>TypeError\<close> is what JavaScript raises
  when \<open>room.players[currentTurnIndex]\<close> is \<open>undefined\<close> and its \<open>id\<close> is read.
\<close>

datatype error =
    RoomFull              \<comment> \<open>Room is full\<close>
  | GameAlreadyStarted    \<comment> \<open>Game already started\<close>
  | ColorUnavailable      \<comment> \<open>Color not available for this game mode\<close>
  | ColorTaken            \<comment> \<open>Color already taken\<close>
  | NotAllReady           \<comment> \<open>Not all players are ready\<close>
  | NotYourTurn           \<comment> \<open>Not your turn\<close>
  | AlreadyRolled         \<comment> \<open>Already rolled, make your move\<close>
  | MustRollFirst         \<comment> \<open>Roll the dice first\<close>
  | InvalidPiece          \<comment> \<open>Invalid piece\<close>
  | InvalidMove           \<comment> \<open>Invalid move\<close>
  | TypeError             \<comment> \<open>Cannot read properties of undefined\<close>

definition PLAYER_COLORS_4P :: "PlayerColor list" where
  "PLAYER_COLORS_4P = [Red, Green, Yellow, Blue]"

definition PLAYER_COLORS_2P :: "PlayerColor list" where
  "PLAYER_COLORS_2P = [Red, Yellow]"

fun colorName :: "PlayerColor \<Rightarrow> string" where
  "colorName Red = ''red''"
| "colorName Green = ''green''"
| "colorName Yellow = ''yellow''"
| "colorName Blue = ''blue''"

text \<open>\<open>Array.prototype.findIndex\<close>; \<open>find\<close> on an array of objects is a read or an
  update at the index it returns.\<close>

fun findIndex :: "('a \<Rightarrow> bool) \<Rightarrow> 'a list \<Rightarrow> nat option" where
  "findIndex P [] = None"
| "findIndex P (x # xs) = (if P x then Some 0 else map_option Suc (findIndex P xs))"

section \<open>Room registry\<close>

text \<open>
  \<open>generateRoomCode\<close> draws random codes until one is not in use. The draws of the
  random source are a parameter; when they run out before a free code turns up the
  loop has not returned, which is the value \<open>None\<close>.
\<close>

fun generateRoomCode :: "GameManager \<Rightarrow> string list \<Rightarrow> string option" where
  "generateRoomCode mgr [] = None"
| "generateRoomCode mgr (c # cs) =
     (if rooms mgr c \<noteq> None then generateRoomCode mgr cs else Some c)"

definition initialGameState :: GameState where
  "initialGameState =
     \<lparr> pieces = [], currentTurnIndex = 0, diceValue = None, lastDiceValue = None,
       isFirstRollOfTurn = True, waitingForMove = False, winner = None, started = False \<rparr>"

definition createRoom ::
  "GameManager \<Rightarrow> string \<Rightarrow> string \<Rightarrow> GameMode \<Rightarrow> string list \<Rightarrow> int
     \<Rightarrow> (GameManager \<times> GameRoom) option" where
  "createRoom mgr pid pname mode draws now =
     (case generateRoomCode mgr draws of
        None \<Rightarrow> None
      | Some c \<Rightarrow>
          (let room = \<lparr> code = c,
                         players = [\<lparr> playerId = pid, playerName = pname,
                                      playerColor = None, ready = False \<rparr>],
                         gameMode = mode,
                         gameState = initialGameState,
                         createdAt = now \<rparr>
           in Some (mgr\<lparr> rooms := (rooms mgr)(c \<mapsto> room),
                          playerToRoom := (playerToRoom mgr)(pid \<mapsto> c) \<rparr>, room)))"

definition maxPlayers :: "GameMode \<Rightarrow> nat" where
  "maxPlayers mode = (if mode = TwoPlayer then 2 else 4)"

definition joinRoom ::
  "GameManager \<Rightarrow> string \<Rightarrow> string \<Rightarrow> string \<Rightarrow> error + (GameManager \<times> GameRoom option)" where
  "joinRoom mgr roomCode pid pname =
     (case rooms mgr roomCode of
        None \<Rightarrow> Inr (mgr, None)
      | Some room \<Rightarrow>
          if length (players room) \<ge> maxPlayers (gameMode room) then Inl RoomFull
          else if started (gameState room) then Inl GameAlreadyStarted
          else
            (let player = \<lparr> playerId = pid, playerName = pname,
                             playerColor = None, ready = False \<rparr>;
                 room' = room\<lparr> players := players room @ [player] \<rparr>
             in Inr (mgr\<lparr> rooms := (rooms mgr)(roomCode \<mapsto> room'),
                           playerToRoom := (playerToRoom mgr)(pid \<mapsto> roomCode) \<rparr>,
                     Some room')))"

definition getAvailableColors :: "GameRoom \<Rightarrow> PlayerColor list" where
  "getAvailableColors room =
     (if gameMode room = TwoPlayer then PLAYER_COLORS_2P else PLAYER_COLORS_4P)"

text \<open>
  The methods that start from the caller's id look the room code up in \<open>playerToRoom\<close>
  and return \<open>null\<close> on \<open>!roomCode\<close>, which holds for a missing entry and for the empty
  string, and then on a missing room.
\<close>

text \<open>The body of \<open>chooseColor\<close> once the caller's room is found.\<close>

definition chooseColorRoom :: "GameRoom \<Rightarrow> string \<Rightarrow> PlayerColor \<Rightarrow> error + GameRoom" where
  "chooseColorRoom room pid c =
     (let availableColors =
            (if gameMode room = TwoPlayer then PLAYER_COLORS_2P else PLAYER_COLORS_4P) in
      if c \<notin> set availableColors then Inl ColorUnavailable
      else if list_ex (\<lambda>p. playerColor p = Some c \<and> playerId p \<noteq> pid) (players room)
        then Inl ColorTaken
      else
        (case findIndex (\<lambda>p. playerId p = pid) (players room) of
           None \<Rightarrow> Inr room
         | Some i \<Rightarrow>
             Inr (room\<lparr> players :=
                    (players room)[i := (players room ! i)\<lparr> playerColor := Some c \<rparr>] \<rparr>)))"

definition chooseColor ::
  "GameManager \<Rightarrow> string \<Rightarrow> PlayerColor \<Rightarrow> error + (GameManager \<times> GameRoom option)" where
  "chooseColor mgr pid c =
     (case playerToRoom mgr pid of
        None \<Rightarrow> Inr (mgr, None)
      | Some roomCode \<Rightarrow>
          if roomCode = [] then Inr (mgr, None)
          else
          (case rooms mgr roomCode of
             None \<Rightarrow> Inr (mgr, None)
           | Some room \<Rightarrow>
               (case chooseColorRoom room pid c of
                  Inl e \<Rightarrow> Inl e
                | Inr room' \<Rightarrow>
                    Inr (mgr\<lparr> rooms := (rooms mgr)(roomCode \<mapsto> room') \<rparr>, Some room'))))"

definition setReadyRoom :: "GameRoom \<Rightarrow> string \<Rightarrow> GameRoom" where
  "setReadyRoom room pid =
     (case findIndex (\<lambda>p. playerId p = pid) (players room) of
        None \<Rightarrow> room
      | Some i \<Rightarrow>
          if playerColor (players room ! i) \<noteq> None
          then room\<lparr> players := (players room)[i := (players room ! i)\<lparr> ready := True \<rparr>] \<rparr>
          else room)"

definition setReady :: "GameManager \<Rightarrow> string \<Rightarrow> GameManager \<times> GameRoom option" where
  "setReady mgr pid =
     (case playerToRoom mgr pid of
        None \<Rightarrow> (mgr, None)
      | Some roomCode \<Rightarrow>
          if roomCode = [] then (mgr, None)
          else
          (case rooms mgr roomCode of
             None \<Rightarrow> (mgr, None)
           | Some room \<Rightarrow>
               (let room' = setReadyRoom room pid
                in (mgr\<lparr> rooms := (rooms mgr)(roomCode \<mapsto> room') \<rparr>, Some room'))))"

definition canStartGame :: "GameRoom \<Rightarrow> bool" where
  "canStartGame room =
     (let requiredPlayers = (if gameMode room = TwoPlayer then 2 else 2);
          maxP = (if gameMode room = TwoPlayer then 2 else (4::nat)) in
      length (players room) \<ge> requiredPlayers \<and>
      length (players room) \<le> maxP \<and>
      list_all (\<lambda>p. playerColor p \<noteq> None \<and> ready p) (players room))"

text \<open>The four pieces \<open>startGame\<close> pushes for one player: none for a player without a
  colour, else ids \<open><color>-0\<close> to \<open><color>-3\<close>.\<close>

definition piecesOf :: "Player \<Rightarrow> GamePiece list" where
  "piecesOf player =
     (case playerColor player of
        None \<Rightarrow> []
      | Some c \<Rightarrow>
          map (\<lambda>i. \<lparr> pieceId = colorName c @ ''-'' @ i, pieceColor = c,
                      position = - 1, isSafe = True \<rparr>)
              [''0'', ''1'', ''2'', ''3''])"

definition startGameRoom :: "GameRoom \<Rightarrow> error + GameRoom" where
  "startGameRoom room =
     (if \<not> canStartGame room then Inl NotAllReady
      else
        Inr (room\<lparr> gameState :=
               \<lparr> pieces = concat (map piecesOf (players room)),
                 currentTurnIndex = 0, diceValue = None, lastDiceValue = None,
                 isFirstRollOfTurn = True, waitingForMove = False, winner = None,
                 started = True \<rparr> \<rparr>))"

definition startGame ::
  "GameManager \<Rightarrow> string \<Rightarrow> error + (GameManager \<times> GameRoom option)" where
  "startGame mgr pid =
     (case playerToRoom mgr pid of
        None \<Rightarrow> Inr (mgr, None)
      | Some roomCode \<Rightarrow>
          if roomCode = [] then Inr (mgr, None)
          else
          (case rooms mgr roomCode of
             None \<Rightarrow> Inr (mgr, None)
           | Some room \<Rightarrow>
               (case startGameRoom room of
                  Inl e \<Rightarrow> Inl e
                | Inr room' \<Rightarrow>
                    Inr (mgr\<lparr> rooms := (rooms mgr)(roomCode \<mapsto> room') \<rparr>, Some room'))))"

definition leaveRoom :: "GameManager \<Rightarrow> string \<Rightarrow> GameManager \<times> string option" where
  "leaveRoom mgr pid =
     (case playerToRoom mgr pid of
        None \<Rightarrow> (mgr, None)
      | Some roomCode \<Rightarrow>
          if roomCode = [] then (mgr, None)
          else
          (case rooms mgr roomCode of
             None \<Rightarrow> (mgr, None)
           | Some room \<Rightarrow>
               (let room' = room\<lparr> players := filter (\<lambda>p. playerId p \<noteq> pid) (players room) \<rparr>;
                    rooms' = (if length (players room') = 0
                              then (rooms mgr)(roomCode := None)
                              else (rooms mgr)(roomCode \<mapsto> room'))
                in (mgr\<lparr> rooms := rooms', playerToRoom := (playerToRoom mgr)(pid := None) \<rparr>,
                    Some roomCode))))"

section \<open>Probability model (rollWeightedDice)\<close>

text \<open>
  Weights are exact rationals: \<open>1.5\<close> is \<open>3/2\<close> and \<open>0.875\<close> is \<open>7/8\<close>. The weight
  vector of lines 178 to 209. A \<open>lastRoll\<close> outside 1 to 6 reads \<open>undefined\<close> from the
  array, \<open>undefined - 2\<close> is \<open>NaN\<close> and \<open>NaN > 0\<close> is false, so the weights stay as
  they are.
\<close>

definition diceWeights :: "bool \<Rightarrow> int option \<Rightarrow> bool \<Rightarrow> rat list" where
  "diceWeights allPiecesInBase lastRoll isFirstRoll =
     (let weights = [15, 15, 15, 15, 15, 25] in
      if allPiecesInBase then
        weights[0 := 10, 1 := 10, 2 := 10, 3 := 10, 4 := 10, 5 := 50]
      else
        (case lastRoll of
           None \<Rightarrow> weights
         | Some l \<Rightarrow>
             if isFirstRoll then
               (if 1 \<le> l \<and> l \<le> 6 then
                  (let lastRollIndex = nat (l - 1);
                       originalWeight = weights ! lastRollIndex;
                       reducedWeight = 2;
                       weightToRedistribute = originalWeight - reducedWeight in
                   if weightToRedistribute > 0 then
                     (let otherIndices = filter (\<lambda>i. i \<noteq> lastRollIndex) [0, 1, 2, 3, 4, 5];
                          baseExtraPerNumber =
                            weightToRedistribute / of_nat (length otherIndices) in
                      foldl (\<lambda>w i. if i = 5
                                     then w[i := w ! i + baseExtraPerNumber * (3 / 2)]
                                     else w[i := w ! i + baseExtraPerNumber * (7 / 8)])
                            (weights[lastRollIndex := reducedWeight]) otherIndices)
                   else weights)
                else weights)
             else weights))"

definition normalizeWeights :: "rat list \<Rightarrow> rat list" where
  "normalizeWeights weights =
     (let totalWeight = foldl (\<lambda>s w. s + w) 0 weights
      in map (\<lambda>w. (w / totalWeight) * 100) weights)"

text \<open>The sampling loop: \<open>None\<close> when no face drove the remainder to zero or below, in
  which case the source keeps its initial \<open>roll = 1\<close>.\<close>

fun sampleLoop :: "rat list \<Rightarrow> int \<Rightarrow> rat \<Rightarrow> int option" where
  "sampleLoop [] i random = None"
| "sampleLoop (w # ws) i random =
     (let random' = random - w in
      if random' \<le> 0 then Some (i + 1) else sampleLoop ws (i + 1) random')"

text \<open>\<open>u\<close> is the value \<open>Math.random()\<close> returns, in \<open>[0, 1)\<close>.\<close>

definition sampleRoll :: "rat list \<Rightarrow> rat \<Rightarrow> int" where
  "sampleRoll normalizedWeights u =
     (case sampleLoop normalizedWeights 0 (u * 100) of None \<Rightarrow> 1 | Some roll \<Rightarrow> roll)"

definition rollWeightedDice :: "GameRoom \<Rightarrow> rat \<Rightarrow> int" where
  "rollWeightedDice room u =
     (let currentPlayer = players room ! currentTurnIndex (gameState room);
          playerPieces = filter (\<lambda>p. Some (pieceColor p) = playerColor currentPlayer)
                                (pieces (gameState room));
          allPiecesInBase = list_all (\<lambda>p. position p = - 1) playerPieces;
          lastRoll = lastDiceValue (gameState room);
          isFirstRoll = isFirstRollOfTurn (gameState room)
      in sampleRoll (normalizeWeights (diceWeights allPiecesInBase lastRoll isFirstRoll)) u)"

section \<open>Movement engine\<close>

definition SAFE_SPOT_POSITIONS :: "int list" where
  "SAFE_SPOT_POSITIONS = [0, 8, 13, 21, 26, 34, 39, 47]"

fun PLAYER_START_OFFSETS :: "PlayerColor \<Rightarrow> int" where
  "PLAYER_START_OFFSETS Red = 0"
| "PLAYER_START_OFFSETS Green = 13"
| "PLAYER_START_OFFSETS Yellow = 26"
| "PLAYER_START_OFFSETS Blue = 39"

definition canMovePiece :: "GamePiece \<Rightarrow> int \<Rightarrow> GameRoom \<Rightarrow> bool" where
  "canMovePiece piece roll room =
     (if position piece = - 1 then roll = 6
      else if position piece + roll > 57 then False
      else True)"

definition getAbsoluteTrackPosition :: "GamePiece \<Rightarrow> int" where
  "getAbsoluteTrackPosition piece =
     (if position piece < 0 \<or> position piece > 50 then - 1
      else (position piece + PLAYER_START_OFFSETS (pieceColor piece)) mod 52)"

definition isPieceOnSafeSpot :: "GamePiece \<Rightarrow> bool" where
  "isPieceOnSafeSpot piece =
     (if position piece \<ge> 51 then True
      else if position piece < 0 then True
      else if position piece = 99 then True
      else getAbsoluteTrackPosition piece \<in> set SAFE_SPOT_POSITIONS)"

text \<open>
  The capture scan of \<open>movePiece\<close> (lines 370 to 397) over the piece list in which the
  mover already stands on its new position: the index of the first piece the loop
  does not skip and finds on the mover's absolute cell, if the mover is on the main
  track and its cell is not a safe spot.
\<close>

definition captureIndex :: "GamePiece \<Rightarrow> GamePiece list \<Rightarrow> nat option" where
  "captureIndex piece ps =
     (if position piece \<ge> 0 \<and> position piece \<le> 50 then
        (let absolutePos = getAbsoluteTrackPosition piece;
             isLandingSpotSafe = (absolutePos \<in> set SAFE_SPOT_POSITIONS) in
         if isLandingSpotSafe then None
         else findIndex
                (\<lambda>otherPiece.
                    pieceId otherPiece \<noteq> pieceId piece \<and>
                    pieceColor otherPiece \<noteq> pieceColor piece \<and>
                    0 \<le> position otherPiece \<and> position otherPiece \<le> 50 \<and>
                    absolutePos = getAbsoluteTrackPosition otherPiece)
                ps)
      else None)"

text \<open>
  Lines 353 to 405: the piece at index \<open>i\<close> moves by \<open>roll\<close>, its safe flag is
  recomputed, one opposing piece on its cell is sent to base, and a position of 57 is
  normalised to 99. The result is the new piece list and the copy of the captured
  piece taken before it was reset.
\<close>

definition applyMove :: "GamePiece list \<Rightarrow> nat \<Rightarrow> int \<Rightarrow> GamePiece list \<times> GamePiece option" where
  "applyMove ps i roll =
     (let piece = ps ! i;
          piece1 = piece\<lparr> position := (if position piece = - 1 then 0 else position piece + roll) \<rparr>;
          piece2 = piece1\<lparr> isSafe := isPieceOnSafeSpot piece1 \<rparr>;
          ps1 = ps[i := piece2];
          target = captureIndex piece2 ps1;
          capturedPiece = map_option (\<lambda>j. ps1 ! j) target;
          ps2 = (case target of
                   None \<Rightarrow> ps1
                 | Some j \<Rightarrow> ps1[j := (ps1 ! j)\<lparr> position := - 1, isSafe := True \<rparr>]);
          ps3 = (if position (ps2 ! i) = 57
                 then ps2[i := (ps2 ! i)\<lparr> position := 99, isSafe := True \<rparr>]
                 else ps2)
      in (ps3, capturedPiece))"

text \<open>Lines 407 to 426: winner detection and the turn-continuation rule.\<close>

definition finishMove ::
  "GameRoom \<Rightarrow> Player \<Rightarrow> int \<Rightarrow> GamePiece list \<Rightarrow> GamePiece option \<Rightarrow> GameRoom" where
  "finishMove room currentPlayer roll ps capturedPiece =
     (let gs = (gameState room)\<lparr> pieces := ps \<rparr>;
          playerPieces = filter (\<lambda>p. Some (pieceColor p) = playerColor currentPlayer) ps;
          gs1 = (if list_all (\<lambda>p. position p = 99) playerPieces
                 then gs\<lparr> winner := playerColor currentPlayer \<rparr> else gs);
          gs2 = gs1\<lparr> waitingForMove := False \<rparr>;
          getAnotherTurn = (roll = 6 \<or> capturedPiece \<noteq> None);
          gs3 = (if \<not> getAnotherTurn \<and> winner gs2 = None
                 then gs2\<lparr> lastDiceValue := Some roll,
                           isFirstRollOfTurn := True,
                           currentTurnIndex :=
                             (currentTurnIndex gs2 + 1) mod length (players room) \<rparr>
                 else gs2)
      in room\<lparr> gameState := gs3\<lparr> diceValue := None \<rparr> \<rparr>)"

text \<open>
  The body of \<open>movePiece\<close> once the caller's started room is found. \<open>!diceValue\<close> is
  true for \<open>null\<close> and for \<open>0\<close>.
\<close>

definition movePieceRoom ::
  "GameRoom \<Rightarrow> string \<Rightarrow> string \<Rightarrow> error + (GameRoom \<times> GamePiece option)" where
  "movePieceRoom room pid pieceId' =
     (let gs = gameState room in
      if currentTurnIndex gs \<ge> length (players room) then Inl TypeError
      else
        (let currentPlayer = players room ! currentTurnIndex gs in
         if playerId currentPlayer \<noteq> pid then Inl NotYourTurn
         else
           (case diceValue gs of
              None \<Rightarrow> Inl MustRollFirst
            | Some roll \<Rightarrow>
                if waitingForMove gs \<and> roll \<noteq> 0 then
                  (case findIndex (\<lambda>p. pieceId p = pieceId') (pieces gs) of
                     None \<Rightarrow> Inl InvalidPiece
                   | Some i \<Rightarrow>
                       (let piece = pieces gs ! i in
                        if Some (pieceColor piece) \<noteq> playerColor currentPlayer
                          then Inl InvalidPiece
                        else if \<not> canMovePiece piece roll room then Inl InvalidMove
                        else
                          (case applyMove (pieces gs) i roll of
                             (ps, capturedPiece) \<Rightarrow>
                               Inr (finishMove room currentPlayer roll ps capturedPiece,
                                    capturedPiece))))
                else Inl MustRollFirst)))"

definition movePiece ::
  "GameManager \<Rightarrow> string \<Rightarrow> string
     \<Rightarrow> error + (GameManager \<times> (GameRoom \<times> GamePiece option) option)" where
  "movePiece mgr pid pieceId' =
     (case playerToRoom mgr pid of
        None \<Rightarrow> Inr (mgr, None)
      | Some roomCode \<Rightarrow>
          if roomCode = [] then Inr (mgr, None)
          else
          (case rooms mgr roomCode of
             None \<Rightarrow> Inr (mgr, None)
           | Some room \<Rightarrow>
               if \<not> started (gameState room) then Inr (mgr, None)
               else
                 (case movePieceRoom room pid pieceId' of
                    Inl e \<Rightarrow> Inl e
                  | Inr (room', captured) \<Rightarrow>
                      Inr (mgr\<lparr> rooms := (rooms mgr)(roomCode \<mapsto> room') \<rparr>,
                           Some (room', captured)))))"

section \<open>Turn state machine: rollDice\<close>

text \<open>The body of \<open>rollDice\<close> once the caller's started room is found; \<open>u\<close> is the draw
  of \<open>Math.random()\<close>.\<close>

definition rollDiceRoom :: "GameRoom \<Rightarrow> string \<Rightarrow> rat \<Rightarrow> error + (GameRoom \<times> int)" where
  "rollDiceRoom room pid u =
     (let gs = gameState room in
      if currentTurnIndex gs \<ge> length (players room) then Inl TypeError
      else
        (let currentPlayer = players room ! currentTurnIndex gs in
         if playerId currentPlayer \<noteq> pid then Inl NotYourTurn
         else if waitingForMove gs then Inl AlreadyRolled
         else
           (let roll = rollWeightedDice room u;
                gs1 = gs\<lparr> diceValue := Some roll, isFirstRollOfTurn := False \<rparr>;
                playerPieces = filter (\<lambda>p. Some (pieceColor p) = playerColor currentPlayer)
                                      (pieces gs1);
                hasValidMoves = list_ex (\<lambda>p. canMovePiece p roll room) playerPieces;
                gs2 = (if hasValidMoves then gs1\<lparr> waitingForMove := True \<rparr>
                       else
                         (if roll \<noteq> 6
                          then gs1\<lparr> lastDiceValue := Some roll,
                                    isFirstRollOfTurn := True,
                                    currentTurnIndex :=
                                      (currentTurnIndex gs1 + 1) mod length (players room) \<rparr>
                          else gs1)\<lparr> diceValue := None \<rparr>)
            in Inr (room\<lparr> gameState := gs2 \<rparr>, roll))))"

definition rollDice ::
  "GameManager \<Rightarrow> string \<Rightarrow> rat \<Rightarrow> error + (GameManager \<times> (GameRoom \<times> int) option)" where
  "rollDice mgr pid u =
     (case playerToRoom mgr pid of
        None \<Rightarrow> Inr (mgr, None)
      | Some roomCode \<Rightarrow>
          if roomCode = [] then Inr (mgr, None)
          else
          (case rooms mgr roomCode of
             None \<Rightarrow> Inr (mgr, None)
           | Some room \<Rightarrow>
               if \<not> started (gameState room) then Inr (mgr, None)
               else
                 (case rollDiceRoom room pid u of
                    Inl e \<Rightarrow> Inl e
                  | Inr (room', roll) \<Rightarrow>
                      Inr (mgr\<lparr> rooms := (rooms mgr)(roomCode \<mapsto> room') \<rparr>,
                           Some (room', roll)))))"

section \<open>Protocol router (handleMessage)\<close>

text \<open>
  The inbound messages of \<open>WSMessage\<close>. What the environment supplies with a message
  travels with it: the random code draws and the clock reading for \<open>create\<close>, the
  draw of \<open>Math.random()\<close> for \<open>roll_dice\<close>. A closed socket is handled as \<open>leave\<close>.
\<close>

datatype WSMessage =
    Create string GameMode "string list" int
  | Join string string
  | Choose_color PlayerColor
  | Ready
  | Start_game
  | Roll_dice rat
  | Move_piece string
  | Leave

text \<open>
  The effect of one message on the manager. An operation that throws has mutated
  nothing (every \<open>throw\<close> precedes the first assignment), and the router only reports
  the error to the sender.
\<close>

definition handleMessage :: "GameManager \<Rightarrow> string \<Rightarrow> WSMessage \<Rightarrow> GameManager" where
  "handleMessage mgr clientId msg =
     (case msg of
        Create pname mode draws now \<Rightarrow>
          (case createRoom mgr clientId pname mode draws now of
             None \<Rightarrow> mgr | Some (mgr', _) \<Rightarrow> mgr')
      | Join roomCode pname \<Rightarrow>
          (case joinRoom mgr roomCode clientId pname of Inl _ \<Rightarrow> mgr | Inr (mgr', _) \<Rightarrow> mgr')
      | Choose_color c \<Rightarrow>
          (case chooseColor mgr clientId c of Inl _ \<Rightarrow> mgr | Inr (mgr', _) \<Rightarrow> mgr')
      | Ready \<Rightarrow> fst (setReady mgr clientId)
      | Start_game \<Rightarrow>
          (case startGame mgr clientId of Inl _ \<Rightarrow> mgr | Inr (mgr', _) \<Rightarrow> mgr')
      | Roll_dice u \<Rightarrow>
          (case rollDice mgr clientId u of Inl _ \<Rightarrow> mgr | Inr (mgr', _) \<Rightarrow> mgr')
      | Move_piece pieceId' \<Rightarrow>
          (case movePiece mgr clientId pieceId' of Inl _ \<Rightarrow> mgr | Inr (mgr', _) \<Rightarrow> mgr')
      | Leave \<Rightarrow> fst (leaveRoom mgr clientId))"

definition emptyManager :: GameManager where
  "emptyManager = \<lparr> rooms = Map.empty, playerToRoom = Map.empty \<rparr>"

fun run :: "GameManager \<Rightarrow> (string \<times> WSMessage) list \<Rightarrow> GameManager" where
  "run mgr [] = mgr"
| "run mgr ((clientId, msg) # rest) = run (handleMessage mgr clientId msg) rest"

text \<open>The managers the server can be in: the empty one, and any reached from it by
  messages of any clients.\<close>

inductive reachable :: "GameManager \<Rightarrow> bool" where
  reachable_init: "reachable emptyManager"
| reachable_step: "reachable mgr \<Longrightarrow> reachable (handleMessage mgr clientId msg)"

section \<open>Invariants and example sessions\<close>

definition positionOk :: "int \<Rightarrow> bool" where
  "positionOk p = (p = - 1 \<or> (0 \<le> p \<and> p \<le> 56) \<or> p = 99)"

definition diceOk :: "int option \<Rightarrow> bool" where
  "diceOk d = (case d of None \<Rightarrow> True | Some roll \<Rightarrow> 1 \<le> roll \<and> roll \<le> 6)"

definition roomOk :: "GameRoom \<Rightarrow> bool" where
  "roomOk room =
     (list_all (\<lambda>p. positionOk (position p)) (pieces (gameState room)) \<and>
      diceOk (diceValue (gameState room)))"

text \<open>The eight weight vectors \<open>diceWeights\<close> can return.\<close>

definition weightVectors :: "rat list list" where
  "weightVectors =
     [[15, 15, 15, 15, 15, 25], [10, 10, 10, 10, 10, 50],
      [2, 691 / 40, 691 / 40, 691 / 40, 691 / 40, 289 / 10],
      [691 / 40, 2, 691 / 40, 691 / 40, 691 / 40, 289 / 10],
      [691 / 40, 691 / 40, 2, 691 / 40, 691 / 40, 289 / 10],
      [691 / 40, 691 / 40, 691 / 40, 2, 691 / 40, 289 / 10],
      [691 / 40, 691 / 40, 691 / 40, 691 / 40, 2, 289 / 10],
      [761 / 40, 761 / 40, 761 / 40, 761 / 40, 761 / 40, 2]]"

text \<open>A two-player lobby in which Ann (red) and Bob (yellow) are both ready, and the
  game started from it.\<close>

definition lobbyTrace :: "(string \<times> WSMessage) list" where
  "lobbyTrace =
     [(''ann'', Create ''Ann'' TwoPlayer [''A1B2C3''] 0),
      (''bob'', Join ''A1B2C3'' ''Bob''),
      (''ann'', Choose_color Red),
      (''bob'', Choose_color Yellow),
      (''ann'', Ready),
      (''bob'', Ready)]"

definition annAndBob :: "Player list" where
  "annAndBob =
     [\<lparr> playerId = ''ann'', playerName = ''Ann'', playerColor = Some Red, ready = True \<rparr>,
      \<lparr> playerId = ''bob'', playerName = ''Bob'', playerColor = Some Yellow, ready = True \<rparr>]"

definition lobbyRoom :: GameRoom where
  "lobbyRoom =
     \<lparr> code = ''A1B2C3'', players = annAndBob, gameMode = TwoPlayer,
       gameState = initialGameState, createdAt = 0 \<rparr>"

definition lobbyManager :: GameManager where
  "lobbyManager =
     \<lparr> rooms = [''A1B2C3'' \<mapsto> lobbyRoom],
       playerToRoom = [''ann'' \<mapsto> ''A1B2C3'', ''bob'' \<mapsto> ''A1B2C3''] \<rparr>"

definition basePieces :: "GamePiece list" where
  "basePieces =
     [\<lparr> pieceId = ''red-0'', pieceColor = Red, position = - 1, isSafe = True \<rparr>,
      \<lparr> pieceId = ''red-1'', pieceColor = Red, position = - 1, isSafe = True \<rparr>,
      \<lparr> pieceId = ''red-2'', pieceColor = Red, position = - 1, isSafe = True \<rparr>,
      \<lparr> pieceId = ''red-3'', pieceColor = Red, position = - 1, isSafe = True \<rparr>,
      \<lparr> pieceId = ''yellow-0'', pieceColor = Yellow, position = - 1, isSafe = True \<rparr>,
      \<lparr> pieceId = ''yellow-1'', pieceColor = Yellow, position = - 1, isSafe = True \<rparr>,
      \<lparr> pieceId = ''yellow-2'', pieceColor = Yellow, position = - 1, isSafe = True \<rparr>,
      \<lparr> pieceId = ''yellow-3'', pieceColor = Yellow, position = - 1, isSafe = True \<rparr>]"

definition startedRoom :: GameRoom where
  "startedRoom =
     lobbyRoom\<lparr> gameState :=
       \<lparr> pieces = basePieces, currentTurnIndex = 0, diceValue = None, lastDiceValue = None,
         isFirstRollOfTurn = True, waitingForMove = False, winner = None, started = True \<rparr> \<rparr>"

text \<open>The same two players in a four-player room whose game has started.\<close>

definition startedRoom4 :: GameRoom where
  "startedRoom4 = startedRoom\<lparr> gameMode := FourPlayer \<rparr>"

definition startedManager4 :: GameManager where
  "startedManager4 =
     \<lparr> rooms = [''A1B2C3'' \<mapsto> startedRoom4],
       playerToRoom = [''ann'' \<mapsto> ''A1B2C3'', ''bob'' \<mapsto> ''A1B2C3''] \<rparr>"

text \<open>
  Boards for the examples: the eight pieces of red and yellow put on the given
  positions, with the safe flag the server would have computed, in a room that awaits
  Ann's move of a given roll, or Ann's roll.
\<close>

definition placed :: "int list \<Rightarrow> GamePiece list" where
  "placed positions =
     map (\<lambda>(p, pos). p\<lparr> position := pos,
                         isSafe := isPieceOnSafeSpot (p\<lparr> position := pos \<rparr>) \<rparr>)
         (zip basePieces positions)"

definition awaitingMove :: "GamePiece list \<Rightarrow> int \<Rightarrow> GameRoom" where
  "awaitingMove ps roll =
     lobbyRoom\<lparr> gameState :=
       \<lparr> pieces = ps, currentTurnIndex = 0, diceValue = Some roll, lastDiceValue = Some 2,
         isFirstRollOfTurn = False, waitingForMove = True, winner = None, started = True \<rparr> \<rparr>"

definition awaitingRoll :: "GamePiece list \<Rightarrow> GameRoom" where
  "awaitingRoll ps =
     lobbyRoom\<lparr> gameState :=
       \<lparr> pieces = ps, currentTurnIndex = 0, diceValue = None, lastDiceValue = None,
         isFirstRollOfTurn = True, waitingForMove = False, winner = None, started = True \<rparr> \<rparr>"

definition managerOf :: "GameRoom \<Rightarrow> GameManager" where
  "managerOf room =
     \<lparr> rooms = [''A1B2C3'' \<mapsto> room],
       playerToRoom = [''ann'' \<mapsto> ''A1B2C3'', ''bob'' \<mapsto> ''A1B2C3''] \<rparr>"

text \<open>
  How one message can change the position of a piece, given the roll stored before the
  message: the piece is (back) in base, or stays, or leaves base to cell 0 on a 6, or
  advances by the roll to at most 56, or advances by the roll to exactly 57 and is
  stored as 99.
\<close>

definition positionStep :: "int option \<Rightarrow> int \<Rightarrow> int \<Rightarrow> bool" where
  "positionStep dice old new =
     (new = - 1 \<or> new = old \<or>
      (case dice of
         None \<Rightarrow> False
       | Some roll \<Rightarrow>
           (old = - 1 \<and> roll = 6 \<and> new = 0) \<or>
           (old \<noteq> - 1 \<and> new = old + roll \<and> old + roll \<le> 56) \<or>
           (old \<noteq> - 1 \<and> old + roll = 57 \<and> new = 99)))"

text \<open>
  Two continuations of the lobby. In the first Ann starts the game and rolls a 6. In
  the second Ann starts the game and rolls a 1 with all her pieces in base, so the
  turn passes to Bob, and then Bob leaves the room.
\<close>

definition openingTrace :: "(string \<times> WSMessage) list" where
  "openingTrace = lobbyTrace @ [(''ann'', Start_game), (''ann'', Roll_dice (99 / 100))]"

definition leaveTrace :: "(string \<times> WSMessage) list" where
  "leaveTrace =
     lobbyTrace @ [(''ann'', Start_game), (''ann'', Roll_dice 0), (''bob'', Leave)]"

text \<open>
  Two further properties of the rooms the server reaches: the bias seed is a roll that
  ended a turn, so never a 6, and the id of a piece starts with the name of its colour
  and a dash.
\<close>

definition seedOk :: "int option \<Rightarrow> bool" where
  "seedOk seed = (case seed of None \<Rightarrow> True | Some roll \<Rightarrow> 1 \<le> roll \<and> roll \<le> 5)"

definition idNamesColor :: "GamePiece \<Rightarrow> bool" where
  "idNamesColor p =
     (take (length (colorName (pieceColor p)) + 1) (pieceId p) = colorName (pieceColor p) @ ''-'')"

text \<open>
  What \<open>rollWeightedDice\<close> reads from the room (lines 169 to 175): whether all pieces
  of the roller's colour are in base (its local \<open>allPiecesInBase\<close>), the previous
  player's final roll and the first-roll flag; and the weight vector it builds from
  that, before normalisation.
\<close>

definition rollerAllInBase :: "GameRoom \<Rightarrow> bool" where
  "rollerAllInBase room =
     (let currentPlayer = players room ! currentTurnIndex (gameState room);
          playerPieces = filter (\<lambda>p. Some (pieceColor p) = playerColor currentPlayer)
                                (pieces (gameState room))
      in list_all (\<lambda>p. position p = - 1) playerPieces)"

definition roomWeights :: "GameRoom \<Rightarrow> rat list" where
  "roomWeights room =
     diceWeights (rollerAllInBase room) (lastDiceValue (gameState room))
       (isFirstRollOfTurn (gameState room))"

text \<open>
  A third continuation of the lobby: Ann starts the game, rolls a 6, brings \<open>red-0\<close>
  onto the track, rolls a 1 and moves it one cell, and Bob rolls a 1 with all his pieces
  in base, so that Ann is to roll again with the seed 1.
\<close>

definition seededTrace :: "(string \<times> WSMessage) list" where
  "seededTrace =
     lobbyTrace @
       [(''ann'', Start_game), (''ann'', Roll_dice (99 / 100)), (''ann'', Move_piece ''red-0''),
        (''ann'', Roll_dice 0), (''ann'', Move_piece ''red-0''), (''bob'', Roll_dice 0)]"

text \<open>
  A whole game. \<open>homeRun\<close> brings one of Ann's pieces home: ten rolls of 6, the first
  leaving base and the others advancing to position 54, then a roll of 3. Ann brings
  her four pieces home one after the other; between two of them Bob rolls a 1 with all
  his pieces in base.
\<close>

definition homeRun :: "string \<Rightarrow> (string \<times> WSMessage) list" where
  "homeRun pieceId' =
     concat (replicate 10 [(''ann'', Roll_dice (99 / 100)), (''ann'', Move_piece pieceId')]) @
     [(''ann'', Roll_dice (2 / 5)), (''ann'', Move_piece pieceId')]"

definition winTrace :: "(string \<times> WSMessage) list" where
  "winTrace =
     lobbyTrace @ [(''ann'', Start_game)] @
     homeRun ''red-0'' @ [(''bob'', Roll_dice 0)] @
     homeRun ''red-1'' @ [(''bob'', Roll_dice 0)] @
     homeRun ''red-2'' @ [(''bob'', Roll_dice 0)] @
     homeRun ''red-3''"

section \<open>The weighted die\<close>


lemma foldl_plus_sum_list: "foldl (\<lambda>s w. s + w) a ws = a + sum_list (ws :: rat list)"
  by (induction ws arbitrary: a) (simp_all add: add.assoc)

lemma sum_list_scaled: "sum_list (map (\<lambda>w. (w / t) * c) ws) = (sum_list ws / t) * (c :: rat)"
  by (induction ws) (simp_all add: add_divide_distrib distrib_right)

lemma sum_normalizeWeights:
  assumes "sum_list ws \<noteq> 0"
  shows "sum_list (normalizeWeights ws) = 100"
proof -
  have "sum_list (normalizeWeights ws) = (sum_list ws / sum_list ws) * 100"
    unfolding normalizeWeights_def Let_def foldl_plus_sum_list
    by (simp only: sum_list_scaled add_0_left)
  with assms show ?thesis by simp
qed

lemma length_normalizeWeights: "length (normalizeWeights ws) = length ws"
  by (simp add: normalizeWeights_def)

lemma sampleLoop_range:
  "sampleLoop ws i r = Some k \<Longrightarrow> i < k \<and> k \<le> i + int (length ws)"
proof (induction ws arbitrary: i r)
  case Nil
  then show ?case by simp
next
  case (Cons w ws)
  show ?case
  proof (cases "r - w \<le> 0")
    case True
    with Cons.prems show ?thesis by simp
  next
    case False
    with Cons.prems have "sampleLoop ws (i + 1) (r - w) = Some k" by simp
    from Cons.IH[OF this] show ?thesis by simp
  qed
qed

lemma sampleLoop_hits_pos:
  "0 < r \<Longrightarrow> r < sum_list ws \<Longrightarrow> \<exists>k. sampleLoop ws i r = Some k"
proof (induction ws arbitrary: i r)
  case Nil
  then show ?case by simp
next
  case (Cons w ws)
  show ?case
  proof (cases "r - w \<le> 0")
    case True
    then show ?thesis by simp
  next
    case False
    with Cons.prems have "0 < r - w" "r - w < sum_list ws" by simp_all
    from Cons.IH[OF this] False show ?thesis by simp
  qed
qed

lemma sampleLoop_hits:
  assumes "ws \<noteq> []" and "r < sum_list ws"
  shows "\<exists>k. sampleLoop ws i r = Some k"
proof (cases ws)
  case Nil
  with assms show ?thesis by simp
next
  case (Cons w ws')
  show ?thesis
  proof (cases "r - w \<le> 0")
    case True
    with Cons show ?thesis by simp
  next
    case False
    with assms Cons have "0 < r - w" "r - w < sum_list ws'" by simp_all
    from sampleLoop_hits_pos[OF this, of "i + 1"] False Cons show ?thesis by simp
  qed
qed

lemma diceWeights_allInBase: "diceWeights True l f = [10, 10, 10, 10, 10, 50]"
  by (simp add: diceWeights_def)

lemma diceWeights_noSeed: "diceWeights False None f = [15, 15, 15, 15, 15, 25]"
  by (simp add: diceWeights_def)

lemma diceWeights_laterRoll: "diceWeights False l False = [15, 15, 15, 15, 15, 25]"
  by (cases l) (simp_all add: diceWeights_def)

lemma diceWeights_outOfRange:
  "l < 1 \<or> 6 < l \<Longrightarrow> diceWeights False (Some l) True = [15, 15, 15, 15, 15, 25]"
  by (auto simp add: diceWeights_def)

lemma diceWeights_after1:
  "diceWeights False (Some 1) True = [2, 691 / 40, 691 / 40, 691 / 40, 691 / 40, 289 / 10]"
  by (simp add: diceWeights_def)

lemma diceWeights_after2:
  "diceWeights False (Some 2) True = [691 / 40, 2, 691 / 40, 691 / 40, 691 / 40, 289 / 10]"
  by (simp add: diceWeights_def)

lemma diceWeights_after3:
  "diceWeights False (Some 3) True = [691 / 40, 691 / 40, 2, 691 / 40, 691 / 40, 289 / 10]"
  by (simp add: diceWeights_def)

lemma diceWeights_after4:
  "diceWeights False (Some 4) True = [691 / 40, 691 / 40, 691 / 40, 2, 691 / 40, 289 / 10]"
  by (simp add: diceWeights_def)

lemma diceWeights_after5:
  "diceWeights False (Some 5) True = [691 / 40, 691 / 40, 691 / 40, 691 / 40, 2, 289 / 10]"
  by (simp add: diceWeights_def)

lemma diceWeights_after6:
  "diceWeights False (Some 6) True = [761 / 40, 761 / 40, 761 / 40, 761 / 40, 761 / 40, 2]"
  by (simp add: diceWeights_def)

lemmas diceWeights_after =
  diceWeights_after1 diceWeights_after2 diceWeights_after3
  diceWeights_after4 diceWeights_after5 diceWeights_after6

lemma diceWeights_cases: "diceWeights b l f \<in> set weightVectors"
proof (cases b)
  case True
  then show ?thesis by (simp add: diceWeights_allInBase weightVectors_def)
next
  case nb: False
  show ?thesis
  proof (cases l)
    case None
    with nb show ?thesis by (simp add: diceWeights_noSeed weightVectors_def)
  next
    case (Some k)
    show ?thesis
    proof (cases f)
      case False
      with nb show ?thesis by (simp add: diceWeights_laterRoll weightVectors_def)
    next
      case True
      have "k < 1 \<or> 6 < k \<or> k = 1 \<or> k = 2 \<or> k = 3 \<or> k = 4 \<or> k = 5 \<or> k = 6" by arith
      moreover have "diceWeights b l f = diceWeights False (Some k) True"
        using nb Some True by simp
      ultimately show ?thesis
        by (elim disjE) (simp_all add: diceWeights_outOfRange diceWeights_after weightVectors_def)
    qed
  qed
qed

lemma weightVectors_props:
  "ws \<in> set weightVectors \<Longrightarrow> length ws = 6 \<and> 0 < sum_list ws"
  by (auto simp add: weightVectors_def)


lemma sampleRoll_range: "length ws = 6 \<Longrightarrow> 1 \<le> sampleRoll ws u \<and> sampleRoll ws u \<le> 6"
  using sampleLoop_range[of ws 0 "u * 100"]
  by (auto simp add: sampleRoll_def split: option.splits)

lemma rollWeightedDice_range: "1 \<le> rollWeightedDice room u \<and> rollWeightedDice room u \<le> 6"
  unfolding rollWeightedDice_def Let_def
  by (rule sampleRoll_range)
     (simp add: length_normalizeWeights weightVectors_props[OF diceWeights_cases])

text \<open>
  Claim C3. Whatever branch of the bias rule is taken (any base occupancy, any previous
  roll, first roll or not), the normalised weights sum to exactly 100 in rational
  arithmetic, and for every draw \<open>u\<close> in \<open>[0, 1)\<close>, that is every \<open>random = u * 100\<close> in
  \<open>[0, 100)\<close>, the subtraction loop stops at a face, which is the roll and lies in 1 to 6.
\<close>

theorem weights_sum_100_and_face_in_range:
  "sum_list (normalizeWeights (diceWeights allPiecesInBase lastRoll isFirstRoll)) = 100 \<and>
   (0 \<le> u \<and> u < 1 \<longrightarrow>
      (\<exists>face. sampleLoop (normalizeWeights (diceWeights allPiecesInBase lastRoll isFirstRoll))
                 0 (u * 100) = Some face \<and>
              sampleRoll (normalizeWeights (diceWeights allPiecesInBase lastRoll isFirstRoll)) u
                = face \<and>
              1 \<le> face \<and> face \<le> 6))"
proof -
  let ?ws = "diceWeights allPiecesInBase lastRoll isFirstRoll"
  let ?nws = "normalizeWeights ?ws"
  have props: "length ?ws = 6" "0 < sum_list ?ws"
    using weightVectors_props[OF diceWeights_cases] by simp_all
  have total: "sum_list ?nws = 100"
    using props by (simp add: sum_normalizeWeights)
  have len: "length ?nws = 6"
    using props by (simp add: length_normalizeWeights)
  have drawn: "\<exists>face. sampleLoop ?nws 0 (u * 100) = Some face \<and> sampleRoll ?nws u = face \<and>
                 1 \<le> face \<and> face \<le> 6" if "0 \<le> u" "u < 1"
  proof -
    from len have "?nws \<noteq> []" by auto
    moreover from that total have "u * 100 < sum_list ?nws" by simp
    ultimately obtain face where face: "sampleLoop ?nws 0 (u * 100) = Some face"
      using sampleLoop_hits by blast
    from sampleLoop_range[OF face] len have "1 \<le> face \<and> face \<le> 6" by simp
    with face show ?thesis by (simp add: sampleRoll_def)
  qed
  from total drawn show ?thesis by blast
qed

theorem weights_sum_100_and_face_in_range_witness:
  "sum_list (normalizeWeights (diceWeights False (Some 3) True)) = 100 \<and>
   (\<exists>face. sampleLoop (normalizeWeights (diceWeights False (Some 3) True)) 0 (1 / 2 * 100)
             = Some face \<and>
           sampleRoll (normalizeWeights (diceWeights False (Some 3) True)) (1 / 2) = face \<and>
           1 \<le> face \<and> face \<le> 6)"
  using weights_sum_100_and_face_in_range[of False "Some 3" True "1 / 2"] by simp

section \<open>Array search\<close>

lemma findIndex_Some:
  "findIndex P xs = Some i \<Longrightarrow> i < length xs \<and> P (xs ! i) \<and> (\<forall>j<i. \<not> P (xs ! j))"
proof (induction xs arbitrary: i)
  case Nil
  then show ?case by simp
next
  case (Cons x xs)
  show ?case
  proof (cases "P x")
    case True
    with Cons.prems show ?thesis by simp
  next
    case False
    with Cons.prems obtain i' where i': "findIndex P xs = Some i'" "i = Suc i'"
      by (auto split: if_splits)
    from Cons.IH[OF i'(1)] False i'(2) show ?thesis
      by (auto simp add: less_Suc_eq_0_disj)
  qed
qed

lemma findIndex_None: "(findIndex P xs = None) = (\<forall>x\<in>set xs. \<not> P x)"
  by (induction xs) auto

section \<open>Starting a game\<close>

lemma position_piecesOf: "p \<in> set (piecesOf pl) \<Longrightarrow> position p = - 1"
  by (auto simp add: piecesOf_def split: option.splits)

lemma id_piecesOf: "p \<in> set (piecesOf pl) \<Longrightarrow> idNamesColor p"
  by (auto simp add: piecesOf_def idNamesColor_def split: option.splits)

lemma count_piecesOf:
  "length (filter (\<lambda>p. pieceColor p = col) (piecesOf pl)) =
     (if playerColor pl = Some col then 4 else 0)"
  by (auto simp add: piecesOf_def split: option.splits)

lemma count_startPieces:
  "length (filter (\<lambda>p. pieceColor p = col) (concat (map piecesOf pls))) =
     4 * length (filter (\<lambda>pl. playerColor pl = Some col) pls)"
  by (induction pls) (simp_all add: count_piecesOf)

lemma length_startPieces:
  "list_all (\<lambda>pl. playerColor pl \<noteq> None) pls \<Longrightarrow>
     length (concat (map piecesOf pls)) = 4 * length pls"
  by (induction pls) (auto simp add: piecesOf_def)

lemma distinct_claim_once:
  "distinct (map f xs) \<Longrightarrow> x \<in> set xs \<Longrightarrow> length (filter (\<lambda>y. f y = f x) xs) = 1"
proof (induction xs)
  case Nil
  then show ?case by simp
next
  case (Cons a xs)
  show ?case
  proof (cases "f a = f x")
    case True
    with Cons.prems have "\<forall>y\<in>set xs. f y \<noteq> f x" by (auto simp add: image_iff)
    then have "filter (\<lambda>y. f y = f x) xs = []" by (simp add: filter_empty_conv)
    with True show ?thesis by simp
  next
    case False
    with Cons show ?thesis by auto
  qed
qed

lemma canStartGame_iff:
  "canStartGame room =
     (2 \<le> length (players room) \<and> length (players room) \<le> maxPlayers (gameMode room) \<and>
      (\<forall>p\<in>set (players room). playerColor p \<noteq> None \<and> ready p))"
  by (simp add: canStartGame_def maxPlayers_def list_all_iff)

text \<open>
  Claim C9. For a caller in a room (registered under a room code, which is never the
  empty string), \<open>startGame\<close> throws "Not all players are ready" exactly when
  \<open>canStartGame\<close> is false, and \<open>canStartGame\<close> holds exactly when the room has
  between 2 and its mode's capacity of players, each with a colour and ready. On
  success the new game state holds four pieces per player of each colour (so exactly
  four per claimed colour, colours being claimed once), all at position -1; the turn
  index is 0, roll and winner are cleared, and the game is started.
\<close>

theorem startGame_spec:
  assumes "playerToRoom mgr pid = Some c" and "rooms mgr c = Some room" and "c \<noteq> []"
  shows
    "canStartGame room =
       (2 \<le> length (players room) \<and> length (players room) \<le> maxPlayers (gameMode room) \<and>
        (\<forall>p\<in>set (players room). playerColor p \<noteq> None \<and> ready p)) \<and>
     (startGame mgr pid = Inl NotAllReady) = (\<not> canStartGame room) \<and>
     (canStartGame room \<longrightarrow>
        (\<exists>room'.
           startGame mgr pid = Inr (mgr\<lparr> rooms := (rooms mgr)(c \<mapsto> room') \<rparr>, Some room') \<and>
           players room' = players room \<and>
           (\<forall>p\<in>set (pieces (gameState room')). position p = - 1) \<and>
           (\<forall>col. length (filter (\<lambda>p. pieceColor p = col) (pieces (gameState room'))) =
                    4 * length (filter (\<lambda>pl. playerColor pl = Some col) (players room))) \<and>
           (distinct (map playerColor (players room)) \<longrightarrow>
              (\<forall>pl\<in>set (players room).
                  length (filter (\<lambda>p. Some (pieceColor p) = playerColor pl)
                                 (pieces (gameState room'))) = 4)) \<and>
           length (pieces (gameState room')) = 4 * length (players room) \<and>
           currentTurnIndex (gameState room') = 0 \<and>
           diceValue (gameState room') = None \<and>
           winner (gameState room') = None \<and>
           started (gameState room')))"
proof -
  let ?ps = "concat (map piecesOf (players room))"
  let ?room' = "room\<lparr> gameState :=
               \<lparr> pieces = ?ps,
                 currentTurnIndex = 0, diceValue = None, lastDiceValue = None,
                 isFirstRollOfTurn = True, waitingForMove = False, winner = None,
                 started = True \<rparr> \<rparr>"
  have fails: "(startGame mgr pid = Inl NotAllReady) = (\<not> canStartGame room)"
    using assms by (simp add: startGame_def startGameRoom_def)
  have ok: "startGame mgr pid = Inr (mgr\<lparr> rooms := (rooms mgr)(c \<mapsto> ?room') \<rparr>, Some ?room')"
    if "canStartGame room"
    using assms that by (simp add: startGame_def startGameRoom_def)
  have base: "\<forall>p\<in>set ?ps. position p = - 1"
    by (auto dest: position_piecesOf)
  have four: "\<forall>pl\<in>set (players room).
                length (filter (\<lambda>p. Some (pieceColor p) = playerColor pl) ?ps) = 4"
    if can: "canStartGame room" and dist: "distinct (map playerColor (players room))"
  proof
    fix pl assume pl: "pl \<in> set (players room)"
    with can obtain col where col: "playerColor pl = Some col"
      by (auto simp add: canStartGame_iff)
    have "length (filter (\<lambda>p. pieceColor p = col) ?ps) =
            4 * length (filter (\<lambda>q. playerColor q = playerColor pl) (players room))"
      by (simp add: count_startPieces col)
    also have "\<dots> = 4" using distinct_claim_once[OF dist pl] by simp
    finally show "length (filter (\<lambda>p. Some (pieceColor p) = playerColor pl) ?ps) = 4"
      by (simp add: col)
  qed
  have len: "length ?ps = 4 * length (players room)" if "canStartGame room"
    using that by (intro length_startPieces) (simp add: canStartGame_iff list_all_iff)
  have "\<exists>room'.
           startGame mgr pid = Inr (mgr\<lparr> rooms := (rooms mgr)(c \<mapsto> room') \<rparr>, Some room') \<and>
           players room' = players room \<and>
           (\<forall>p\<in>set (pieces (gameState room')). position p = - 1) \<and>
           (\<forall>col. length (filter (\<lambda>p. pieceColor p = col) (pieces (gameState room'))) =
                    4 * length (filter (\<lambda>pl. playerColor pl = Some col) (players room))) \<and>
           (distinct (map playerColor (players room)) \<longrightarrow>
              (\<forall>pl\<in>set (players room).
                  length (filter (\<lambda>p. Some (pieceColor p) = playerColor pl)
                                 (pieces (gameState room'))) = 4)) \<and>
           length (pieces (gameState room')) = 4 * length (players room) \<and>
           currentTurnIndex (gameState room') = 0 \<and>
           diceValue (gameState room') = None \<and>
           winner (gameState room') = None \<and>
           started (gameState room')" if can: "canStartGame room"
    apply (rule exI[of _ ?room'])
    using ok[OF can] base four[OF can] len[OF can]
    by (simp add: count_startPieces)
  with fails canStartGame_iff show ?thesis by blast
qed

lemmas example_defs = lobbyManager_def lobbyRoom_def annAndBob_def startedRoom_def
  basePieces_def initialGameState_def

theorem startGame_spec_witness:
  "canStartGame lobbyRoom \<and>
   startGame lobbyManager ''ann'' =
     Inr (lobbyManager\<lparr> rooms := (rooms lobbyManager)(''A1B2C3'' \<mapsto> startedRoom) \<rparr>,
          Some startedRoom) \<and>
   length (pieces (gameState startedRoom)) = 8 \<and>
   list_all (\<lambda>p. position p = - 1) (pieces (gameState startedRoom)) \<and>
   length (filter (\<lambda>p. pieceColor p = Red) (pieces (gameState startedRoom))) = 4 \<and>
   length (filter (\<lambda>p. pieceColor p = Yellow) (pieces (gameState startedRoom))) = 4 \<and>
   currentTurnIndex (gameState startedRoom) = 0"
proof -
  have room: "playerToRoom lobbyManager ''ann'' = Some ''A1B2C3''"
    "rooms lobbyManager ''A1B2C3'' = Some lobbyRoom" "''A1B2C3'' \<noteq> []"
    by (simp_all add: lobbyManager_def)
  have can: "canStartGame lobbyRoom"
    by (simp add: canStartGame_def lobbyRoom_def annAndBob_def)
  have eval: "startGame lobbyManager ''ann'' =
     Inr (lobbyManager\<lparr> rooms := (rooms lobbyManager)(''A1B2C3'' \<mapsto> startedRoom) \<rparr>,
          Some startedRoom)"
    using room can
    by (simp add: startGame_def startGameRoom_def startedRoom_def basePieces_def piecesOf_def
          lobbyRoom_def annAndBob_def)
  from startGame_spec[OF room] can eval show ?thesis
    by (simp add: startedRoom_def basePieces_def)
qed

section \<open>Choosing a colour\<close>

text \<open>
  Claim C10. In a room whose game has started, \<open>chooseColor\<close> by a player of the room
  still succeeds whenever the colour is valid for the mode and no other player holds
  it: the (first) player entry with the caller's id gets the colour, the game state is
  untouched, and no started flag is consulted. \<open>joinRoom\<close> on the same room is refused.
\<close>

theorem chooseColor_after_start:
  assumes "playerToRoom mgr pid = Some c" and "rooms mgr c = Some room"
    and "started (gameState room)"
    and "col \<in> set (getAvailableColors room)"
    and "\<forall>p\<in>set (players room). playerColor p = Some col \<longrightarrow> playerId p = pid"
    and "findIndex (\<lambda>p. playerId p = pid) (players room) = Some i"
    and "c \<noteq> []"
  shows
    "chooseColor mgr pid col =
       Inr (mgr\<lparr> rooms := (rooms mgr)(c \<mapsto>
                     room\<lparr> players :=
                       (players room)[i := (players room ! i)\<lparr> playerColor := Some col \<rparr>] \<rparr>) \<rparr>,
            Some (room\<lparr> players :=
                    (players room)[i := (players room ! i)\<lparr> playerColor := Some col \<rparr>] \<rparr>)) \<and>
     playerId (players room ! i) = pid \<and>
     playerColor ((players room)[i := (players room ! i)\<lparr> playerColor := Some col \<rparr>] ! i)
       = Some col \<and>
     (joinRoom mgr c pid2 pname = Inl RoomFull \<or>
      joinRoom mgr c pid2 pname = Inl GameAlreadyStarted)"
proof -
  from assms(6) have i: "i < length (players room)" "playerId (players room ! i) = pid"
    using findIndex_Some by fastforce+
  from assms(5) have free:
    "\<not> list_ex (\<lambda>p. playerColor p = Some col \<and> playerId p \<noteq> pid) (players room)"
    by (auto simp add: list_ex_iff)
  from assms(4) have avail:
    "col \<in> set (if gameMode room = TwoPlayer then PLAYER_COLORS_2P else PLAYER_COLORS_4P)"
    by (simp add: getAvailableColors_def)
  have "chooseColorRoom room pid col =
          Inr (room\<lparr> players :=
                 (players room)[i := (players room ! i)\<lparr> playerColor := Some col \<rparr>] \<rparr>)"
    unfolding chooseColorRoom_def Let_def using avail free assms(6) by simp
  then have chosen: "chooseColor mgr pid col =
       Inr (mgr\<lparr> rooms := (rooms mgr)(c \<mapsto>
                     room\<lparr> players :=
                       (players room)[i := (players room ! i)\<lparr> playerColor := Some col \<rparr>] \<rparr>) \<rparr>,
            Some (room\<lparr> players :=
                    (players room)[i := (players room ! i)\<lparr> playerColor := Some col \<rparr>] \<rparr>))"
    using assms(1,2,7) by (simp add: chooseColor_def)
  have joined: "joinRoom mgr c pid2 pname = Inl RoomFull \<or>
      joinRoom mgr c pid2 pname = Inl GameAlreadyStarted"
    using assms(2,3) by (simp add: joinRoom_def)
  from chosen i joined show ?thesis by simp
qed

theorem chooseColor_after_start_witness:
  "started (gameState startedRoom4) \<and>
   chooseColor startedManager4 ''ann'' Green =
     Inr (startedManager4\<lparr> rooms := (rooms startedManager4)(''A1B2C3'' \<mapsto>
            startedRoom4\<lparr> players :=
              [\<lparr> playerId = ''ann'', playerName = ''Ann'', playerColor = Some Green,
                  ready = True \<rparr>,
               \<lparr> playerId = ''bob'', playerName = ''Bob'', playerColor = Some Yellow,
                  ready = True \<rparr>] \<rparr>) \<rparr>,
          Some (startedRoom4\<lparr> players :=
              [\<lparr> playerId = ''ann'', playerName = ''Ann'', playerColor = Some Green,
                  ready = True \<rparr>,
               \<lparr> playerId = ''bob'', playerName = ''Bob'', playerColor = Some Yellow,
                  ready = True \<rparr>] \<rparr>)) \<and>
   joinRoom startedManager4 ''A1B2C3'' ''cat'' ''Cat'' = Inl GameAlreadyStarted"
proof -
  have h: "playerToRoom startedManager4 ''ann'' = Some ''A1B2C3''"
    "rooms startedManager4 ''A1B2C3'' = Some startedRoom4"
    "started (gameState startedRoom4)"
    "Green \<in> set (getAvailableColors startedRoom4)"
    "\<forall>p\<in>set (players startedRoom4). playerColor p = Some Green \<longrightarrow> playerId p = ''ann''"
    "findIndex (\<lambda>p. playerId p = ''ann'') (players startedRoom4) = Some 0"
    "''A1B2C3'' \<noteq> []"
    by (simp_all add: startedManager4_def startedRoom4_def example_defs
          getAvailableColors_def PLAYER_COLORS_4P_def)
  have j: "joinRoom startedManager4 ''A1B2C3'' ''cat'' ''Cat'' = Inl GameAlreadyStarted"
    by (simp add: joinRoom_def maxPlayers_def startedManager4_def startedRoom4_def example_defs)
  from chooseColor_after_start[OF h, of "''cat''" "''Cat''"] h(3) j show ?thesis
    by (simp add: startedRoom4_def example_defs)
qed

section \<open>Transition of a move\<close>

lemma movePieceRoom_success:
  assumes "movePieceRoom room pid pieceId' = Inr (room', captured)"
  obtains roll i where
    "currentTurnIndex (gameState room) < length (players room)"
    "playerId (players room ! currentTurnIndex (gameState room)) = pid"
    "diceValue (gameState room) = Some roll" "roll \<noteq> 0" "waitingForMove (gameState room)"
    "findIndex (\<lambda>p. pieceId p = pieceId') (pieces (gameState room)) = Some i"
    "Some (pieceColor (pieces (gameState room) ! i)) =
       playerColor (players room ! currentTurnIndex (gameState room))"
    "canMovePiece (pieces (gameState room) ! i) roll room"
    "room' = finishMove room (players room ! currentTurnIndex (gameState room)) roll
               (fst (applyMove (pieces (gameState room)) i roll)) captured"
    "captured = snd (applyMove (pieces (gameState room)) i roll)"
  using assms unfolding movePieceRoom_def Let_def
  by (auto split: if_splits option.splits prod.splits)

lemma finishMove_fields:
  "players (finishMove room cp roll ps cap) = players room"
  "pieces (gameState (finishMove room cp roll ps cap)) = ps"
  "diceValue (gameState (finishMove room cp roll ps cap)) = None"
  "waitingForMove (gameState (finishMove room cp roll ps cap)) = False"
  "started (gameState (finishMove room cp roll ps cap)) = started (gameState room)"
  by (simp_all add: finishMove_def Let_def)

lemma finishMove_keep:
  assumes "roll = 6 \<or> cap \<noteq> None \<or> winner (gameState (finishMove room cp roll ps cap)) \<noteq> None"
  shows "currentTurnIndex (gameState (finishMove room cp roll ps cap)) =
           currentTurnIndex (gameState room) \<and>
         lastDiceValue (gameState (finishMove room cp roll ps cap)) =
           lastDiceValue (gameState room) \<and>
         isFirstRollOfTurn (gameState (finishMove room cp roll ps cap)) =
           isFirstRollOfTurn (gameState room)"
  using assms by (auto simp add: finishMove_def Let_def split: if_splits)

lemma finishMove_advance:
  assumes "roll \<noteq> 6" "cap = None" "winner (gameState (finishMove room cp roll ps cap)) = None"
  shows "currentTurnIndex (gameState (finishMove room cp roll ps cap)) =
           (currentTurnIndex (gameState room) + 1) mod length (players room) \<and>
         lastDiceValue (gameState (finishMove room cp roll ps cap)) = Some roll \<and>
         isFirstRollOfTurn (gameState (finishMove room cp roll ps cap))"
  using assms by (auto simp add: finishMove_def Let_def split: if_splits)


lemmas move_defs = movePieceRoom_def applyMove_def captureIndex_def finishMove_def
  canMovePiece_def getAbsoluteTrackPosition_def isPieceOnSafeSpot_def SAFE_SPOT_POSITIONS_def
  placed_def awaitingMove_def awaitingRoll_def example_defs Let_def

text \<open>
  The turn-continuation rule of \<open>movePiece\<close>. After a successful move the pending roll
  is cleared and no move is owed. If the roll was a 6 or a piece was captured, the turn
  index, the bias seed and the first-roll flag stay as they were. Otherwise, if no
  winner stands after the move, the roll becomes the bias seed, the first-roll flag is
  set and the turn index advances by one modulo the number of players. Whenever a
  winner stands after the move, this move leaves the turn index unchanged.
\<close>

lemma turn_continuation:
  assumes "movePieceRoom room pid pieceId' = Inr (room', captured)"
  shows
    "\<exists>roll. diceValue (gameState room) = Some roll \<and>
       diceValue (gameState room') = None \<and>
       \<not> waitingForMove (gameState room') \<and>
       players room' = players room \<and>
       (roll = 6 \<or> captured \<noteq> None \<longrightarrow>
          currentTurnIndex (gameState room') = currentTurnIndex (gameState room) \<and>
          lastDiceValue (gameState room') = lastDiceValue (gameState room) \<and>
          isFirstRollOfTurn (gameState room') = isFirstRollOfTurn (gameState room)) \<and>
       (roll \<noteq> 6 \<and> captured = None \<and> winner (gameState room') = None \<longrightarrow>
          lastDiceValue (gameState room') = Some roll \<and>
          isFirstRollOfTurn (gameState room') \<and>
          currentTurnIndex (gameState room') =
            (currentTurnIndex (gameState room) + 1) mod length (players room)) \<and>
       (winner (gameState room') \<noteq> None \<longrightarrow>
          currentTurnIndex (gameState room') = currentTurnIndex (gameState room))"
proof -
  from assms obtain roll i where
    roll: "diceValue (gameState room) = Some roll"
    and room': "room' = finishMove room (players room ! currentTurnIndex (gameState room)) roll
               (fst (applyMove (pieces (gameState room)) i roll)) captured"
    by (rule movePieceRoom_success)
  let ?cp = "players room ! currentTurnIndex (gameState room)"
  let ?ps = "fst (applyMove (pieces (gameState room)) i roll)"
  have keep: "currentTurnIndex (gameState room') = currentTurnIndex (gameState room) \<and>
          lastDiceValue (gameState room') = lastDiceValue (gameState room) \<and>
          isFirstRollOfTurn (gameState room') = isFirstRollOfTurn (gameState room)"
    if "roll = 6 \<or> captured \<noteq> None \<or> winner (gameState room') \<noteq> None"
    using that finishMove_keep[of roll captured room ?cp ?ps] unfolding room' by blast
  have advance: "lastDiceValue (gameState room') = Some roll \<and>
          isFirstRollOfTurn (gameState room') \<and>
          currentTurnIndex (gameState room') =
            (currentTurnIndex (gameState room) + 1) mod length (players room)"
    if "roll \<noteq> 6 \<and> captured = None \<and> winner (gameState room') = None"
    using that finishMove_advance[of roll captured room ?cp ?ps] unfolding room' by blast
  have cleared: "diceValue (gameState room') = None" "\<not> waitingForMove (gameState room')"
    "players room' = players room"
    unfolding room' by (simp_all add: finishMove_fields)
  from roll cleared keep advance show ?thesis by blast
qed

text \<open>Three moves of Ann's piece \<open>red-0\<close>: a capture on absolute cell 10 with a roll of
  3, a roll of 1 onto the star cell 8 where a yellow piece stands, and the roll of 3
  that brings her last piece home.\<close>

lemma capture_example:
  "\<exists>room'. movePieceRoom (awaitingMove (placed [7, - 1, - 1, - 1, 36, - 1, - 1, - 1]) 3)
             ''ann'' ''red-0'' =
           Inr (room', Some \<lparr> pieceId = ''yellow-0'', pieceColor = Yellow, position = 36,
                               isSafe = False \<rparr>) \<and>
           pieces (gameState room') = placed [10, - 1, - 1, - 1, - 1, - 1, - 1, - 1]"
  by (simp add: move_defs)

lemma star_example:
  "\<exists>room'. movePieceRoom (awaitingMove (placed [7, - 1, - 1, - 1, 34, - 1, - 1, - 1]) 1)
             ''ann'' ''red-0'' = Inr (room', None) \<and>
           winner (gameState room') = None \<and>
           pieces (gameState room') = placed [8, - 1, - 1, - 1, 34, - 1, - 1, - 1]"
  by (simp add: move_defs)

lemma home_example:
  "\<exists>room'. movePieceRoom (awaitingMove (placed [54, 99, 99, 99, - 1, - 1, - 1, - 1]) 3)
             ''ann'' ''red-0'' = Inr (room', None) \<and>
           winner (gameState room') = Some Red \<and>
           pieces (gameState room') = placed [99, 99, 99, 99, - 1, - 1, - 1, - 1]"
  by (simp add: move_defs)

lemma turn_continuation_examples:
  "(\<exists>room' cap.
      movePieceRoom (awaitingMove (placed [7, - 1, - 1, - 1, 36, - 1, - 1, - 1]) 3)
        ''ann'' ''red-0'' = Inr (room', Some cap) \<and>
      diceValue (gameState room') = None \<and>
      currentTurnIndex (gameState room') = 0) \<and>
   (\<exists>room'.
      movePieceRoom (awaitingMove (placed [7, - 1, - 1, - 1, 34, - 1, - 1, - 1]) 1)
        ''ann'' ''red-0'' = Inr (room', None) \<and>
      lastDiceValue (gameState room') = Some 1 \<and>
      isFirstRollOfTurn (gameState room') \<and>
      currentTurnIndex (gameState room') = 1) \<and>
   (\<exists>room'.
      movePieceRoom (awaitingMove (placed [54, 99, 99, 99, - 1, - 1, - 1, - 1]) 3)
        ''ann'' ''red-0'' = Inr (room', None) \<and>
      winner (gameState room') = Some Red \<and>
      currentTurnIndex (gameState room') = 0)"
proof -
  obtain r1 where r1:
    "movePieceRoom (awaitingMove (placed [7, - 1, - 1, - 1, 36, - 1, - 1, - 1]) 3)
        ''ann'' ''red-0'' =
       Inr (r1, Some \<lparr> pieceId = ''yellow-0'', pieceColor = Yellow, position = 36,
                           isSafe = False \<rparr>)"
    using capture_example by blast
  obtain r2 where r2:
    "movePieceRoom (awaitingMove (placed [7, - 1, - 1, - 1, 34, - 1, - 1, - 1]) 1)
        ''ann'' ''red-0'' = Inr (r2, None)" "winner (gameState r2) = None"
    using star_example by blast
  obtain r3 where r3:
    "movePieceRoom (awaitingMove (placed [54, 99, 99, 99, - 1, - 1, - 1, - 1]) 3)
        ''ann'' ''red-0'' = Inr (r3, None)" "winner (gameState r3) = Some Red"
    using home_example by blast
  have "diceValue (gameState r1) = None \<and> currentTurnIndex (gameState r1) = 0"
    using turn_continuation[OF r1] by (simp add: awaitingMove_def)
  moreover have "lastDiceValue (gameState r2) = Some 1 \<and> isFirstRollOfTurn (gameState r2) \<and>
      currentTurnIndex (gameState r2) = 1"
    using turn_continuation[OF r2(1)] r2(2) by (simp add: awaitingMove_def example_defs)
  moreover have "currentTurnIndex (gameState r3) = 0"
    using turn_continuation[OF r3(1)] r3(2) by (simp add: awaitingMove_def)
  ultimately show ?thesis using r1 r2 r3 by blast
qed

section \<open>Capture resolution\<close>

lemma findIndex_cong:
  "(\<And>x. x \<in> set xs \<Longrightarrow> P x = Q x) \<Longrightarrow> findIndex P xs = findIndex Q xs"
  by (induction xs) simp_all

lemma findIndex_update_skipped:
  "\<not> Q y \<Longrightarrow> (i < length xs \<Longrightarrow> \<not> Q (xs ! i)) \<Longrightarrow> findIndex Q (xs[i := y]) = findIndex Q xs"
proof (induction xs arbitrary: i)
  case Nil
  then show ?case by simp
next
  case (Cons x xs)
  show ?case
  proof (cases i)
    case 0
    with Cons.prems show ?thesis by simp
  next
    case (Suc i')
    with Cons.prems have "findIndex Q (xs[i' := y]) = findIndex Q xs"
      by (intro Cons.IH) simp_all
    with Suc show ?thesis by simp
  qed
qed

text \<open>What \<open>applyMove\<close> does to the pieces other than the mover, in terms of the index
  the capture scan returns.\<close>

lemma applyMove_no_target:
  assumes "i < length ps"
    and "captureIndex (moved :: GamePiece) (ps[i := moved]) = None"
    and "moved = (ps ! i)\<lparr> position := (if position (ps ! i) = - 1 then 0
                                          else position (ps ! i) + roll),
                          isSafe := isPieceOnSafeSpot
                            ((ps ! i)\<lparr> position := (if position (ps ! i) = - 1 then 0
                                                       else position (ps ! i) + roll) \<rparr>) \<rparr>"
  shows "snd (applyMove ps i roll) = None \<and>
         length (fst (applyMove ps i roll)) = length ps \<and>
         (\<forall>k<length ps. k \<noteq> i \<longrightarrow> fst (applyMove ps i roll) ! k = ps ! k)"
  using assms(1,2) unfolding applyMove_def Let_def assms(3)[symmetric]
  by simp

lemma applyMove_target:
  assumes "i < length ps"
    and "captureIndex (moved :: GamePiece) (ps[i := moved]) = Some j"
    and "j < length ps" "j \<noteq> i"
    and "moved = (ps ! i)\<lparr> position := (if position (ps ! i) = - 1 then 0
                                          else position (ps ! i) + roll),
                          isSafe := isPieceOnSafeSpot
                            ((ps ! i)\<lparr> position := (if position (ps ! i) = - 1 then 0
                                                       else position (ps ! i) + roll) \<rparr>) \<rparr>"
  shows "snd (applyMove ps i roll) = Some (ps ! j) \<and>
         length (fst (applyMove ps i roll)) = length ps \<and>
         fst (applyMove ps i roll) ! j = (ps ! j)\<lparr> position := - 1, isSafe := True \<rparr> \<and>
         (\<forall>k<length ps. k \<noteq> i \<and> k \<noteq> j \<longrightarrow> fst (applyMove ps i roll) ! k = ps ! k)"
  using assms(1-4) unfolding applyMove_def Let_def assms(5)[symmetric]
  by (simp add: nth_list_update)


text \<open>
  Claim C5. Let a move of the piece at index \<open>i\<close> succeed, with \<open>newPos\<close> its position
  after the step and \<open>cell\<close> the absolute cell of \<open>newPos\<close>, in a room whose piece ids
  name one colour each. If \<open>newPos\<close> is on the main track (0 to 50) and \<open>cell\<close> is not
  one of the eight safe cells, then the first other-coloured piece of the list that
  stands on \<open>cell\<close>, if there is one, is the piece reported as captured and is reset
  to position -1 and safe, and every piece other than it and the mover is unchanged;
  if there is none, nothing is captured. If \<open>newPos\<close> is off the main track or \<open>cell\<close>
  is a safe cell, nothing is captured and every piece other than the mover is
  unchanged, whoever stands on that cell.
\<close>

theorem capture_rule:
  assumes ok: "movePieceRoom room pid pieceId' = Inr (room', captured)"
    and roll: "diceValue (gameState room) = Some roll"
    and i: "findIndex (\<lambda>p. pieceId p = pieceId') (pieces (gameState room)) = Some i"
    and ids: "\<forall>q\<in>set (pieces (gameState room)).
                pieceId q = pieceId' \<longrightarrow> pieceColor q = pieceColor (pieces (gameState room) ! i)"
  defines "ps \<equiv> pieces (gameState room)" and "ps' \<equiv> pieces (gameState room')"
  defines "newPos \<equiv> (if position (ps ! i) = - 1 then 0 else position (ps ! i) + roll)"
  defines "cell \<equiv> (newPos + PLAYER_START_OFFSETS (pieceColor (ps ! i))) mod 52"
  defines "opponentOnCell \<equiv>
             (\<lambda>q. pieceColor q \<noteq> pieceColor (ps ! i) \<and> getAbsoluteTrackPosition q = cell)"
  shows
    "length ps' = length ps \<and>
     (0 \<le> newPos \<and> newPos \<le> 50 \<and> cell \<notin> set SAFE_SPOT_POSITIONS \<longrightarrow>
        (case findIndex opponentOnCell ps of
           None \<Rightarrow> captured = None \<and> (\<forall>k<length ps. k \<noteq> i \<longrightarrow> ps' ! k = ps ! k)
         | Some j \<Rightarrow>
             captured = Some (ps ! j) \<and>
             ps' ! j = (ps ! j)\<lparr> position := - 1, isSafe := True \<rparr> \<and>
             (\<forall>k<length ps. k \<noteq> i \<and> k \<noteq> j \<longrightarrow> ps' ! k = ps ! k))) \<and>
     (newPos < 0 \<or> 50 < newPos \<or> cell \<in> set SAFE_SPOT_POSITIONS \<longrightarrow>
        captured = None \<and> (\<forall>k<length ps. k \<noteq> i \<longrightarrow> ps' ! k = ps ! k))"
proof -
  from ok obtain roll0 i0 where
    r0: "diceValue (gameState room) = Some roll0"
    and i0: "findIndex (\<lambda>p. pieceId p = pieceId') (pieces (gameState room)) = Some i0"
    and room0: "room' = finishMove room (players room ! currentTurnIndex (gameState room)) roll0
               (fst (applyMove (pieces (gameState room)) i0 roll0)) captured"
    and cap0: "captured = snd (applyMove (pieces (gameState room)) i0 roll0)"
    by (rule movePieceRoom_success)
  from r0 roll i0 i have same: "roll0 = roll" "i0 = i" by simp_all
  have ps': "ps' = fst (applyMove ps i roll)"
    unfolding ps'_def ps_def room0 same by (simp add: finishMove_fields)
  have cap: "captured = snd (applyMove ps i roll)"
    using cap0 unfolding ps_def same .
  from findIndex_Some[OF i] have ilen: "i < length ps" and iid: "pieceId (ps ! i) = pieceId'"
    unfolding ps_def by simp_all
  define moved where
    "moved = (ps ! i)\<lparr> position := (if position (ps ! i) = - 1 then 0
                                       else position (ps ! i) + roll),
                       isSafe := isPieceOnSafeSpot
                         ((ps ! i)\<lparr> position := (if position (ps ! i) = - 1 then 0
                                                    else position (ps ! i) + roll) \<rparr>) \<rparr>"
  have mpos: "position moved = newPos" and mid: "pieceId moved = pieceId (ps ! i)"
    and mcol: "pieceColor moved = pieceColor (ps ! i)"
    by (simp_all add: moved_def newPos_def)
  define scan where
    "scan = (\<lambda>otherPiece.
               pieceId otherPiece \<noteq> pieceId moved \<and>
               pieceColor otherPiece \<noteq> pieceColor moved \<and>
               0 \<le> position otherPiece \<and> position otherPiece \<le> 50 \<and>
               getAbsoluteTrackPosition moved = getAbsoluteTrackPosition otherPiece)"
  have skip: "\<not> scan moved" "\<not> scan (ps ! i)"
    by (simp_all add: scan_def mid)
  have scan_ps: "findIndex scan (ps[i := moved]) = findIndex scan ps"
    using skip by (intro findIndex_update_skipped) simp_all
  have offTrack: "captureIndex moved (ps[i := moved]) = None"
    if "newPos < 0 \<or> 50 < newPos \<or> cell \<in> set SAFE_SPOT_POSITIONS"
    using that unfolding captureIndex_def Let_def
    by (auto simp add: mpos mcol getAbsoluteTrackPosition_def cell_def)
  have onTrack: "captureIndex moved (ps[i := moved]) = findIndex opponentOnCell ps"
    if on: "0 \<le> newPos \<and> newPos \<le> 50 \<and> cell \<notin> set SAFE_SPOT_POSITIONS"
  proof -
    from on have mcell: "getAbsoluteTrackPosition moved = cell"
      by (simp add: getAbsoluteTrackPosition_def mpos mcol cell_def)
    have "captureIndex moved (ps[i := moved]) = findIndex scan (ps[i := moved])"
      using on unfolding captureIndex_def Let_def scan_def by (simp add: mpos mcell)
    also have "\<dots> = findIndex scan ps" by (rule scan_ps)
    also have "\<dots> = findIndex opponentOnCell ps"
    proof (rule findIndex_cong)
      fix q assume q: "q \<in> set ps"
      have cellrange: "0 \<le> cell" by (simp add: cell_def)
      show "scan q = opponentOnCell q"
      proof
        assume "scan q"
        then show "opponentOnCell q"
          by (simp add: scan_def opponentOnCell_def mcol mcell)
      next
        assume opp: "opponentOnCell q"
        then have col: "pieceColor q \<noteq> pieceColor (ps ! i)"
          and at: "getAbsoluteTrackPosition q = cell"
          by (simp_all add: opponentOnCell_def)
        from col ids q have "pieceId q \<noteq> pieceId'" unfolding ps_def by blast
        moreover from at cellrange have "0 \<le> position q \<and> position q \<le> 50"
          by (auto simp add: getAbsoluteTrackPosition_def split: if_splits)
        ultimately show "scan q"
          using col at by (simp add: scan_def mid mcol mcell iid)
      qed
    qed
    finally show ?thesis .
  qed
  have len: "length ps' = length ps"
  proof (cases "captureIndex moved (ps[i := moved])")
    case None
    from applyMove_no_target[OF ilen None moved_def] show ?thesis by (simp add: ps')
  next
    case (Some j)
    have "captureIndex moved (ps[i := moved]) = findIndex scan (ps[i := moved])"
      using Some unfolding captureIndex_def Let_def scan_def by (simp split: if_splits)
    with Some scan_ps have j: "findIndex scan ps = Some j" by simp
    from findIndex_Some[OF j] skip have "j < length ps" "j \<noteq> i" by auto
    from applyMove_target[OF ilen Some this moved_def] show ?thesis by (simp add: ps')
  qed
  have A: "(case findIndex opponentOnCell ps of
           None \<Rightarrow> captured = None \<and> (\<forall>k<length ps. k \<noteq> i \<longrightarrow> ps' ! k = ps ! k)
         | Some j \<Rightarrow>
             captured = Some (ps ! j) \<and>
             ps' ! j = (ps ! j)\<lparr> position := - 1, isSafe := True \<rparr> \<and>
             (\<forall>k<length ps. k \<noteq> i \<and> k \<noteq> j \<longrightarrow> ps' ! k = ps ! k))"
    if on: "0 \<le> newPos \<and> newPos \<le> 50 \<and> cell \<notin> set SAFE_SPOT_POSITIONS"
  proof (cases "findIndex opponentOnCell ps")
    case None
    with onTrack[OF on] have "captureIndex moved (ps[i := moved]) = None" by simp
    from applyMove_no_target[OF ilen this moved_def] None show ?thesis
      by (simp add: ps' cap)
  next
    case (Some j)
    with onTrack[OF on] have t: "captureIndex moved (ps[i := moved]) = Some j" by simp
    from Some have "opponentOnCell (ps ! j)" "j < length ps"
      using findIndex_Some by fastforce+
    then have "j \<noteq> i" "j < length ps" by (auto simp add: opponentOnCell_def)
    from applyMove_target[OF ilen t this(2,1) moved_def] Some show ?thesis
      by (simp add: ps' cap)
  qed
  have B: "captured = None \<and> (\<forall>k<length ps. k \<noteq> i \<longrightarrow> ps' ! k = ps ! k)"
    if off: "newPos < 0 \<or> 50 < newPos \<or> cell \<in> set SAFE_SPOT_POSITIONS"
    using applyMove_no_target[OF ilen offTrack[OF off] moved_def] by (simp add: ps' cap)
  from len A B show ?thesis by blast
qed


theorem capture_rule_witness:
  "(\<exists>room'.
      movePieceRoom (awaitingMove (placed [7, - 1, - 1, - 1, 36, - 1, - 1, - 1]) 3)
        ''ann'' ''red-0'' =
        Inr (room', Some \<lparr> pieceId = ''yellow-0'', pieceColor = Yellow, position = 36,
                            isSafe = False \<rparr>) \<and>
      pieces (gameState room') ! 4 =
        \<lparr> pieceId = ''yellow-0'', pieceColor = Yellow, position = - 1, isSafe = True \<rparr>) \<and>
   (\<exists>room'.
      movePieceRoom (awaitingMove (placed [7, - 1, - 1, - 1, 34, - 1, - 1, - 1]) 1)
        ''ann'' ''red-0'' = Inr (room', None) \<and>
      pieces (gameState room') ! 4 =
        \<lparr> pieceId = ''yellow-0'', pieceColor = Yellow, position = 34, isSafe = True \<rparr>)"
proof -
  let ?capture = "awaitingMove (placed [7, - 1, - 1, - 1, 36, - 1, - 1, - 1]) 3"
  let ?star = "awaitingMove (placed [7, - 1, - 1, - 1, 34, - 1, - 1, - 1]) 1"
  obtain r1 where r1:
    "movePieceRoom ?capture ''ann'' ''red-0'' =
       Inr (r1, Some \<lparr> pieceId = ''yellow-0'', pieceColor = Yellow, position = 36,
                           isSafe = False \<rparr>)"
    using capture_example by blast
  obtain r2 where r2: "movePieceRoom ?star ''ann'' ''red-0'' = Inr (r2, None)"
    using star_example by blast
  have h1: "diceValue (gameState ?capture) = Some 3"
    "findIndex (\<lambda>p. pieceId p = ''red-0'') (pieces (gameState ?capture)) = Some 0"
    "\<forall>q\<in>set (pieces (gameState ?capture)).
        pieceId q = ''red-0'' \<longrightarrow> pieceColor q = pieceColor (pieces (gameState ?capture) ! 0)"
    by (simp_all add: move_defs)
  have h2: "diceValue (gameState ?star) = Some 1"
    "findIndex (\<lambda>p. pieceId p = ''red-0'') (pieces (gameState ?star)) = Some 0"
    "\<forall>q\<in>set (pieces (gameState ?star)).
        pieceId q = ''red-0'' \<longrightarrow> pieceColor q = pieceColor (pieces (gameState ?star) ! 0)"
    by (simp_all add: move_defs)
  have "pieces (gameState r1) ! 4 =
        \<lparr> pieceId = ''yellow-0'', pieceColor = Yellow, position = - 1, isSafe = True \<rparr>"
    using capture_rule[OF r1 h1] by (simp add: move_defs eval_nat_numeral)
  moreover have "pieces (gameState r2) ! 4 =
        \<lparr> pieceId = ''yellow-0'', pieceColor = Yellow, position = 34, isSafe = True \<rparr>"
    using capture_rule[OF r2 h2] by (simp add: move_defs eval_nat_numeral)
  ultimately show ?thesis using r1 r2 by blast
qed

section \<open>Move legality\<close>

text \<open>
  Claim C7, as amended. \<open>canMovePiece\<close> looks at the position and the roll only: a base
  piece may move exactly on a 6, any other piece exactly when position plus roll is at
  most 57. The other two conditions are checked by \<open>movePiece\<close> before it is called:
  with no move owed or no roll stored the move fails with "Roll the dice first", and a
  piece of another colour than the active player's fails with "Invalid piece". A piece
  of the active colour that \<open>canMovePiece\<close> rejects fails with "Invalid move", and the
  manager, hence the piece, is left as it was; every other such move is carried out.
\<close>

theorem move_legality:
  assumes "playerToRoom mgr pid = Some c" and "rooms mgr c = Some room"
    and "started (gameState room)"
    and "currentTurnIndex (gameState room) < length (players room)"
    and "playerId (players room ! currentTurnIndex (gameState room)) = pid"
    and "findIndex (\<lambda>p. pieceId p = pieceId') (pieces (gameState room)) = Some i"
    and "c \<noteq> []"
  shows
    "canMovePiece anyPiece anyRoll anyRoom =
       (if position anyPiece = - 1 then anyRoll = 6 else position anyPiece + anyRoll \<le> 57) \<and>
     (\<not> waitingForMove (gameState room) \<or> diceValue (gameState room) = None \<longrightarrow>
        movePiece mgr pid pieceId' = Inl MustRollFirst) \<and>
     (\<forall>roll. waitingForMove (gameState room) \<and> diceValue (gameState room) = Some roll \<and>
             roll \<noteq> 0 \<longrightarrow>
        (Some (pieceColor (pieces (gameState room) ! i)) \<noteq>
           playerColor (players room ! currentTurnIndex (gameState room)) \<longrightarrow>
           movePiece mgr pid pieceId' = Inl InvalidPiece) \<and>
        (Some (pieceColor (pieces (gameState room) ! i)) =
           playerColor (players room ! currentTurnIndex (gameState room)) \<and>
         (position (pieces (gameState room) ! i) = - 1 \<and> roll \<noteq> 6 \<or>
          position (pieces (gameState room) ! i) \<noteq> - 1 \<and>
          position (pieces (gameState room) ! i) + roll > 57) \<longrightarrow>
           movePiece mgr pid pieceId' = Inl InvalidMove \<and>
           handleMessage mgr pid (Move_piece pieceId') = mgr) \<and>
        (Some (pieceColor (pieces (gameState room) ! i)) =
           playerColor (players room ! currentTurnIndex (gameState room)) \<and>
         (position (pieces (gameState room) ! i) = - 1 \<and> roll = 6 \<or>
          position (pieces (gameState room) ! i) \<noteq> - 1 \<and>
          position (pieces (gameState room) ! i) + roll \<le> 57) \<longrightarrow>
           (\<exists>mgr' room' captured.
              movePiece mgr pid pieceId' = Inr (mgr', Some (room', captured)))))"
proof -
  have can: "canMovePiece anyPiece anyRoll anyRoom =
       (if position anyPiece = - 1 then anyRoll = 6 else position anyPiece + anyRoll \<le> 57)"
    for anyPiece anyRoll anyRoom
    by (auto simp add: canMovePiece_def)
  have noRoll: "movePiece mgr pid pieceId' = Inl MustRollFirst"
    if "\<not> waitingForMove (gameState room) \<or> diceValue (gameState room) = None"
    using that assms by (auto simp add: movePiece_def movePieceRoom_def Let_def split: option.splits)
  have pending:
    "(Some (pieceColor (pieces (gameState room) ! i)) \<noteq>
           playerColor (players room ! currentTurnIndex (gameState room)) \<longrightarrow>
           movePiece mgr pid pieceId' = Inl InvalidPiece) \<and>
        (Some (pieceColor (pieces (gameState room) ! i)) =
           playerColor (players room ! currentTurnIndex (gameState room)) \<and>
         (position (pieces (gameState room) ! i) = - 1 \<and> roll \<noteq> 6 \<or>
          position (pieces (gameState room) ! i) \<noteq> - 1 \<and>
          position (pieces (gameState room) ! i) + roll > 57) \<longrightarrow>
           movePiece mgr pid pieceId' = Inl InvalidMove \<and>
           handleMessage mgr pid (Move_piece pieceId') = mgr) \<and>
        (Some (pieceColor (pieces (gameState room) ! i)) =
           playerColor (players room ! currentTurnIndex (gameState room)) \<and>
         (position (pieces (gameState room) ! i) = - 1 \<and> roll = 6 \<or>
          position (pieces (gameState room) ! i) \<noteq> - 1 \<and>
          position (pieces (gameState room) ! i) + roll \<le> 57) \<longrightarrow>
           (\<exists>mgr' room' captured.
              movePiece mgr pid pieceId' = Inr (mgr', Some (room', captured))))"
    if "waitingForMove (gameState room) \<and> diceValue (gameState room) = Some roll \<and> roll \<noteq> 0"
    for roll
    using that assms
    by (auto simp add: movePiece_def movePieceRoom_def handleMessage_def Let_def can
             split: prod.splits)
  from can noRoll pending show ?thesis by blast
qed

lemmas manager_defs = managerOf_def movePiece_def rollDice_def handleMessage_def

theorem move_legality_witness:
  "movePiece (managerOf (awaitingMove (placed [54, - 1, - 1, - 1, 36, - 1, - 1, - 1]) 4))
     ''ann'' ''red-0'' = Inl InvalidMove \<and>
   handleMessage (managerOf (awaitingMove (placed [54, - 1, - 1, - 1, 36, - 1, - 1, - 1]) 4))
     ''ann'' (Move_piece ''red-0'') =
     managerOf (awaitingMove (placed [54, - 1, - 1, - 1, 36, - 1, - 1, - 1]) 4) \<and>
   canMovePiece \<lparr> pieceId = ''red-0'', pieceColor = Red, position = 54, isSafe = True \<rparr> 4
     lobbyRoom = False"
proof -
  let ?room = "awaitingMove (placed [54, - 1, - 1, - 1, 36, - 1, - 1, - 1]) 4"
  have h: "playerToRoom (managerOf ?room) ''ann'' = Some ''A1B2C3''"
    "rooms (managerOf ?room) ''A1B2C3'' = Some ?room"
    "started (gameState ?room)"
    "currentTurnIndex (gameState ?room) < length (players ?room)"
    "playerId (players ?room ! currentTurnIndex (gameState ?room)) = ''ann''"
    "findIndex (\<lambda>p. pieceId p = ''red-0'') (pieces (gameState ?room)) = Some 0"
    "''A1B2C3'' \<noteq> []"
    by (simp_all add: managerOf_def move_defs)
  have f: "waitingForMove (gameState ?room)" "diceValue (gameState ?room) = Some 4"
    "Some (pieceColor (pieces (gameState ?room) ! 0)) =
       playerColor (players ?room ! currentTurnIndex (gameState ?room))"
    "position (pieces (gameState ?room) ! 0) = 54"
    by (simp_all add: move_defs)
  from move_legality[OF h,
      of "\<lparr> pieceId = ''red-0'', pieceColor = Red, position = 54, isSafe = True \<rparr>" 4 lobbyRoom]
    f show ?thesis by simp
qed

text \<open>
  Claim C7 as stated fails for \<open>canMovePiece\<close> itself: in the freshly started game it is
  Ann's (red's) turn and no roll is pending, yet \<open>canMovePiece\<close> accepts Bob's yellow base
  piece for a roll of 6.
\<close>

theorem canMovePiece_ignores_turn:
  "canMovePiece (pieces (gameState startedRoom) ! 4) 6 startedRoom \<and>
   pieceColor (pieces (gameState startedRoom) ! 4) = Yellow \<and>
   playerColor (players startedRoom ! currentTurnIndex (gameState startedRoom)) = Some Red \<and>
   diceValue (gameState startedRoom) = None \<and>
   \<not> waitingForMove (gameState startedRoom)"
  by (simp add: canMovePiece_def example_defs)

section \<open>Rolling without a legal move\<close>

lemma rollDiceRoom_success:
  assumes "rollDiceRoom room pid u = Inr (room', roll)"
  shows "currentTurnIndex (gameState room) < length (players room) \<and>
         playerId (players room ! currentTurnIndex (gameState room)) = pid \<and>
         \<not> waitingForMove (gameState room) \<and>
         roll = rollWeightedDice room u"
  using assms unfolding rollDiceRoom_def Let_def
  by (auto split: if_splits)

text \<open>
  Claim C6. When a roll succeeds and no piece of the active player's colour can move
  by it, the pending roll is discarded and no move is owed. If the roll was not a 6 it
  becomes the bias seed, the first-roll flag is set again and the turn index advances
  by one modulo the number of players; if it was a 6 the turn index stays with the
  same player, who rolls again.
\<close>

theorem roll_without_legal_move:
  assumes "rollDiceRoom room pid u = Inr (room', roll)"
    and "\<forall>p\<in>set (pieces (gameState room)).
           Some (pieceColor p) = playerColor (players room ! currentTurnIndex (gameState room))
             \<longrightarrow> \<not> canMovePiece p roll room"
  shows
    "roll = rollWeightedDice room u \<and>
     diceValue (gameState room') = None \<and>
     \<not> waitingForMove (gameState room') \<and>
     players room' = players room \<and>
     pieces (gameState room') = pieces (gameState room) \<and>
     (roll \<noteq> 6 \<longrightarrow>
        lastDiceValue (gameState room') = Some roll \<and>
        isFirstRollOfTurn (gameState room') \<and>
        currentTurnIndex (gameState room') =
          (currentTurnIndex (gameState room) + 1) mod length (players room)) \<and>
     (roll = 6 \<longrightarrow>
        currentTurnIndex (gameState room') = currentTurnIndex (gameState room) \<and>
        lastDiceValue (gameState room') = lastDiceValue (gameState room))"
proof -
  note ok = rollDiceRoom_success[OF assms(1)]
  let ?cp = "players room ! currentTurnIndex (gameState room)"
  have none: "\<not> list_ex (\<lambda>p. canMovePiece p (rollWeightedDice room u) room)
                  (filter (\<lambda>p. Some (pieceColor p) = playerColor ?cp) (pieces (gameState room)))"
    using assms(2) ok by (auto simp add: list_ex_iff)
  from assms(1) ok none show ?thesis
    unfolding rollDiceRoom_def Let_def
    by (auto split: if_splits)
qed

lemmas dice_defs = rollDiceRoom_def rollWeightedDice_def sampleRoll_def normalizeWeights_def
  diceWeights_def

lemma first_roll_example:
  "rollDiceRoom startedRoom ''ann'' 0 =
     Inr (startedRoom\<lparr> gameState := (gameState startedRoom)
            \<lparr> lastDiceValue := Some 1, currentTurnIndex := 1 \<rparr> \<rparr>, 1)"
  by (simp add: dice_defs move_defs)

lemma stuck_six_example:
  "rollDiceRoom (awaitingRoll (placed [53, 99, 99, 99, 36, - 1, - 1, - 1])) ''ann'' (99 / 100) =
     Inr ((awaitingRoll (placed [53, 99, 99, 99, 36, - 1, - 1, - 1]))
            \<lparr> gameState := (gameState (awaitingRoll (placed [53, 99, 99, 99, 36, - 1, - 1, - 1])))
                 \<lparr> isFirstRollOfTurn := False \<rparr> \<rparr>, 6)"
  by (simp add: dice_defs move_defs)

theorem roll_without_legal_move_witness:
  "(\<exists>room'. rollDiceRoom startedRoom ''ann'' 0 = Inr (room', 1) \<and>
            diceValue (gameState room') = None \<and>
            lastDiceValue (gameState room') = Some 1 \<and>
            isFirstRollOfTurn (gameState room') \<and>
            currentTurnIndex (gameState room') = 1) \<and>
   (\<exists>room'. rollDiceRoom (awaitingRoll (placed [53, 99, 99, 99, 36, - 1, - 1, - 1]))
              ''ann'' (99 / 100) = Inr (room', 6) \<and>
            diceValue (gameState room') = None \<and>
            \<not> waitingForMove (gameState room') \<and>
            currentTurnIndex (gameState room') = 0)"
proof -
  let ?late = "awaitingRoll (placed [53, 99, 99, 99, 36, - 1, - 1, - 1])"
  have stuck1: "\<forall>p\<in>set (pieces (gameState startedRoom)).
           Some (pieceColor p) =
             playerColor (players startedRoom ! currentTurnIndex (gameState startedRoom))
             \<longrightarrow> \<not> canMovePiece p 1 startedRoom"
    by (simp add: move_defs)
  have stuck6: "\<forall>p\<in>set (pieces (gameState ?late)).
           Some (pieceColor p) = playerColor (players ?late ! currentTurnIndex (gameState ?late))
             \<longrightarrow> \<not> canMovePiece p 6 ?late"
    by (simp add: move_defs)
  have "diceValue (gameState r) = None \<and> lastDiceValue (gameState r) = Some 1 \<and>
        isFirstRollOfTurn (gameState r) \<and> currentTurnIndex (gameState r) = 1"
    if "rollDiceRoom startedRoom ''ann'' 0 = Inr (r, 1)" for r
    using roll_without_legal_move[OF that stuck1] by (simp add: example_defs)
  moreover have "diceValue (gameState r) = None \<and> \<not> waitingForMove (gameState r) \<and>
        currentTurnIndex (gameState r) = 0"
    if "rollDiceRoom ?late ''ann'' (99 / 100) = Inr (r, 6)" for r
    using roll_without_legal_move[OF that stuck6] by (simp add: awaitingRoll_def)
  ultimately show ?thesis
    using first_roll_example stuck_six_example by blast
qed

section \<open>Piece positions\<close>

lemma captureIndex_other:
  assumes "captureIndex moved (ps[i := moved]) = Some j" and "i < length ps"
  shows "j < length ps \<and> j \<noteq> i"
proof -
  let ?scan = "\<lambda>otherPiece.
                 pieceId otherPiece \<noteq> pieceId moved \<and>
                 pieceColor otherPiece \<noteq> pieceColor moved \<and>
                 0 \<le> position otherPiece \<and> position otherPiece \<le> 50 \<and>
                 getAbsoluteTrackPosition moved = getAbsoluteTrackPosition otherPiece"
  from assms(1) have "findIndex ?scan (ps[i := moved]) = Some j"
    unfolding captureIndex_def Let_def by (simp split: if_splits)
  from findIndex_Some[OF this] have j: "j < length ps" "?scan ((ps[i := moved]) ! j)"
    by simp_all
  from j(2) assms(2) have "j \<noteq> i" by auto
  with j(1) show ?thesis by simp
qed

lemma applyMove_nth:
  assumes "i < length ps" and "k < length ps"
    and "moved = (ps ! i)\<lparr> position := (if position (ps ! i) = - 1 then 0
                                          else position (ps ! i) + roll),
                          isSafe := isPieceOnSafeSpot
                            ((ps ! i)\<lparr> position := (if position (ps ! i) = - 1 then 0
                                                       else position (ps ! i) + roll) \<rparr>) \<rparr>"
  shows "fst (applyMove ps i roll) ! k =
           (if k = i
            then (if position moved = 57 then moved\<lparr> position := 99, isSafe := True \<rparr> else moved)
            else if captureIndex moved (ps[i := moved]) = Some k
            then (ps ! k)\<lparr> position := - 1, isSafe := True \<rparr>
            else ps ! k)"
proof (cases "captureIndex moved (ps[i := moved])")
  case None
  with assms(1,2) show ?thesis
    unfolding applyMove_def Let_def assms(3)[symmetric] by simp
next
  case (Some j)
  from captureIndex_other[OF Some assms(1)] have "j < length ps" "j \<noteq> i" by simp_all
  with Some assms(1,2) show ?thesis
    unfolding applyMove_def Let_def assms(3)[symmetric] by (simp add: nth_list_update)
qed

lemma length_applyMove: "length (fst (applyMove ps i roll)) = length ps"
  unfolding applyMove_def Let_def by (simp split: option.splits)

text \<open>What one move does to the position of the piece at any index \<open>k\<close>.\<close>

lemma applyMove_position:
  assumes "i < length ps" and "k < length ps" and "canMovePiece (ps ! i) roll room"
  shows "position (fst (applyMove ps i roll) ! k) = - 1 \<or>
         position (fst (applyMove ps i roll) ! k) = position (ps ! k) \<or>
         (position (ps ! k) = - 1 \<and> roll = 6 \<and> position (fst (applyMove ps i roll) ! k) = 0) \<or>
         (position (ps ! k) \<noteq> - 1 \<and>
          position (fst (applyMove ps i roll) ! k) = position (ps ! k) + roll \<and>
          position (ps ! k) + roll \<le> 56) \<or>
         (position (ps ! k) \<noteq> - 1 \<and> position (ps ! k) + roll = 57 \<and>
          position (fst (applyMove ps i roll) ! k) = 99)"
proof -
  define moved where
    "moved = (ps ! i)\<lparr> position := (if position (ps ! i) = - 1 then 0
                                       else position (ps ! i) + roll),
                       isSafe := isPieceOnSafeSpot
                         ((ps ! i)\<lparr> position := (if position (ps ! i) = - 1 then 0
                                                    else position (ps ! i) + roll) \<rparr>) \<rparr>"
  note nth = applyMove_nth[OF assms(1,2) moved_def]
  show ?thesis
  proof (cases "k = i")
    case False
    with nth show ?thesis by (simp split: if_splits)
  next
    case True
    have mpos: "position moved = (if position (ps ! i) = - 1 then 0 else position (ps ! i) + roll)"
      by (simp add: moved_def)
    from assms(3) have legal:
      "if position (ps ! i) = - 1 then roll = 6 else position (ps ! i) + roll \<le> 57"
      by (auto simp add: canMovePiece_def split: if_splits)
    from nth True have
      "position (fst (applyMove ps i roll) ! k) =
         (if position moved = 57 then 99 else position moved)"
      by simp
    with mpos legal True show ?thesis by (auto split: if_splits)
  qed
qed

lemma positionOk_after_move:
  assumes "positionOk old" and "1 \<le> roll \<and> roll \<le> (6::int)"
    and "new = - 1 \<or> new = old \<or> (old = - 1 \<and> roll = 6 \<and> new = 0) \<or>
         (old \<noteq> - 1 \<and> new = old + roll \<and> old + roll \<le> 56) \<or>
         (old \<noteq> - 1 \<and> old + roll = 57 \<and> new = 99)"
  shows "positionOk new"
  using assms unfolding positionOk_def by auto


text \<open>
  What a message can do to the room found under a code afterwards: its game state is
  the one the room under that code had before, or it is a new or newly started game
  (all pieces in base and named after their colour, no roll and no seed stored), or
  the room is the result of a successful roll or move on the room that was there.
\<close>

lemma handleMessage_cases:
  assumes "rooms (handleMessage mgr clientId msg) c = Some room'"
  shows "(\<exists>room. rooms mgr c = Some room \<and> gameState room' = gameState room) \<or>
         ((\<forall>p\<in>set (pieces (gameState room')). position p = - 1 \<and> idNamesColor p) \<and>
          diceValue (gameState room') = None \<and>
          lastDiceValue (gameState room') = None) \<or>
         (\<exists>room u roll. rooms mgr c = Some room \<and>
            rollDiceRoom room clientId u = Inr (room', roll)) \<or>
         (\<exists>room pieceId' captured. rooms mgr c = Some room \<and>
            movePieceRoom room clientId pieceId' = Inr (room', captured))"
proof (cases msg)
  case (Create pname mode draws now)
  with assms show ?thesis
    by (auto simp add: handleMessage_def createRoom_def initialGameState_def Let_def
             split: option.splits if_splits)
next
  case (Join roomCode pname)
  with assms show ?thesis
    by (auto simp add: handleMessage_def joinRoom_def Let_def
             split: option.splits if_splits)
next
  case (Choose_color col)
  with assms show ?thesis
    by (auto simp add: handleMessage_def chooseColor_def chooseColorRoom_def Let_def
             split: option.splits if_splits sum.splits)
next
  case Ready
  with assms show ?thesis
    by (auto simp add: handleMessage_def setReady_def setReadyRoom_def Let_def
             split: option.splits if_splits)
next
  case Start_game
  with assms show ?thesis
    by (auto simp add: handleMessage_def startGame_def startGameRoom_def Let_def
             dest: position_piecesOf id_piecesOf split: option.splits if_splits sum.splits)
next
  case (Roll_dice u)
  with assms show ?thesis
    by (auto simp add: handleMessage_def rollDice_def
             split: option.splits if_splits sum.splits prod.splits)
next
  case (Move_piece pieceId')
  with assms show ?thesis
    by (auto simp add: handleMessage_def movePiece_def
             split: option.splits if_splits sum.splits prod.splits)
next
  case Leave
  with assms show ?thesis
    by (auto simp add: handleMessage_def leaveRoom_def Let_def
             split: option.splits if_splits)
qed


lemma rollDiceRoom_roomOk:
  assumes "rollDiceRoom room pid u = Inr (room', roll)" and "roomOk room"
  shows "roomOk room'"
proof -
  note range = rollWeightedDice_range[of room u]
  from assms range show ?thesis
    unfolding rollDiceRoom_def Let_def roomOk_def diceOk_def
    by (auto split: if_splits)
qed

lemma rollDiceRoom_pieces:
  "rollDiceRoom room pid u = Inr (room', roll) \<Longrightarrow>
     pieces (gameState room') = pieces (gameState room)"
  unfolding rollDiceRoom_def Let_def by (auto split: if_splits)

lemma movePieceRoom_positions:
  assumes "movePieceRoom room pid pieceId' = Inr (room', captured)"
  shows "length (pieces (gameState room')) = length (pieces (gameState room)) \<and>
         (\<forall>k<length (pieces (gameState room)).
            positionStep (diceValue (gameState room))
              (position (pieces (gameState room) ! k))
              (position (pieces (gameState room') ! k)))"
proof -
  from assms obtain roll i where
    roll: "diceValue (gameState room) = Some roll"
    and i: "findIndex (\<lambda>p. pieceId p = pieceId') (pieces (gameState room)) = Some i"
    and legal: "canMovePiece (pieces (gameState room) ! i) roll room"
    and room': "room' = finishMove room (players room ! currentTurnIndex (gameState room)) roll
               (fst (applyMove (pieces (gameState room)) i roll)) captured"
    by (rule movePieceRoom_success)
  from findIndex_Some[OF i] have ilen: "i < length (pieces (gameState room))" by simp
  have ps': "pieces (gameState room') = fst (applyMove (pieces (gameState room)) i roll)"
    unfolding room' by (simp add: finishMove_fields)
  have "positionStep (diceValue (gameState room))
              (position (pieces (gameState room) ! k))
              (position (pieces (gameState room') ! k))"
    if "k < length (pieces (gameState room))" for k
    using applyMove_position[OF ilen that legal]
    unfolding ps' roll positionStep_def by auto
  then show ?thesis by (simp add: ps' length_applyMove)
qed

lemma positionStep_ok:
  assumes "positionStep dice old new" and "positionOk old" and "diceOk dice"
  shows "positionOk new"
proof (cases dice)
  case None
  with assms show ?thesis by (auto simp add: positionStep_def positionOk_def)
next
  case (Some roll)
  with assms(3) have "1 \<le> roll \<and> roll \<le> 6" by (simp add: diceOk_def)
  moreover from assms(1) Some have
    "new = - 1 \<or> new = old \<or> (old = - 1 \<and> roll = 6 \<and> new = 0) \<or>
     (old \<noteq> - 1 \<and> new = old + roll \<and> old + roll \<le> 56) \<or>
     (old \<noteq> - 1 \<and> old + roll = 57 \<and> new = 99)"
    by (simp add: positionStep_def)
  ultimately show ?thesis using positionOk_after_move[OF assms(2)] by blast
qed

lemma movePieceRoom_roomOk:
  assumes "movePieceRoom room pid pieceId' = Inr (room', captured)" and "roomOk room"
  shows "roomOk room'"
proof -
  note step = movePieceRoom_positions[OF assms(1)]
  from assms(1) have dice': "diceValue (gameState room') = None"
    by (elim movePieceRoom_success) (simp add: finishMove_fields)
  have "positionOk (position (pieces (gameState room') ! k))"
    if k: "k < length (pieces (gameState room'))" for k
  proof -
    from k step have k0: "k < length (pieces (gameState room))" by simp
    with assms(2) have "positionOk (position (pieces (gameState room) ! k))"
      by (simp add: roomOk_def list_all_length)
    moreover from assms(2) have "diceOk (diceValue (gameState room))"
      by (simp add: roomOk_def)
    ultimately show ?thesis using step k0 positionStep_ok by blast
  qed
  with dice' show ?thesis by (simp add: roomOk_def list_all_length diceOk_def)
qed

lemma handleMessage_roomOk:
  assumes "\<forall>c room. rooms mgr c = Some room \<longrightarrow> roomOk room"
    and "rooms (handleMessage mgr clientId msg) c = Some room'"
  shows "roomOk room'"
proof -
  from handleMessage_cases[OF assms(2)]
  consider
    (same) room where "rooms mgr c = Some room" "gameState room' = gameState room"
  | (base) "\<forall>p\<in>set (pieces (gameState room')). position p = - 1"
      "diceValue (gameState room') = None"
  | (rolled) room u roll where "rooms mgr c = Some room"
      "rollDiceRoom room clientId u = Inr (room', roll)"
  | (moved) room pieceId' captured where "rooms mgr c = Some room"
      "movePieceRoom room clientId pieceId' = Inr (room', captured)"
    by (elim disjE exE conjE) auto
  then show ?thesis
  proof cases
    case same
    with assms(1) have "roomOk room" by blast
    with same(2) show ?thesis by (simp add: roomOk_def)
  next
    case base
    then show ?thesis by (simp add: roomOk_def list_all_iff positionOk_def diceOk_def)
  next
    case rolled
    with assms(1) have "roomOk room" by blast
    with rolled(2) show ?thesis by (rule rollDiceRoom_roomOk)
  next
    case moved
    with assms(1) have "roomOk room" by blast
    with moved(2) show ?thesis by (rule movePieceRoom_roomOk)
  qed
qed

lemma reachable_roomOk:
  "reachable mgr \<Longrightarrow> rooms mgr c = Some room \<Longrightarrow> roomOk room"
proof (induction arbitrary: c room rule: reachable.induct)
  case reachable_init
  then show ?case by (simp add: emptyManager_def)
next
  case (reachable_step mgr clientId msg)
  show ?case
    by (rule handleMessage_roomOk[OF _ reachable_step.prems]) (simp add: reachable_step.IH)
qed

lemma handleMessage_positions:
  assumes "rooms (handleMessage mgr clientId msg) c = Some room'"
    and "k < length (pieces (gameState room'))"
  shows "position (pieces (gameState room') ! k) = - 1 \<or>
         (\<exists>room. rooms mgr c = Some room \<and> k < length (pieces (gameState room)) \<and>
            positionStep (diceValue (gameState room))
              (position (pieces (gameState room) ! k))
              (position (pieces (gameState room') ! k)))"
proof -
  from handleMessage_cases[OF assms(1)]
  consider
    (same) room where "rooms mgr c = Some room" "gameState room' = gameState room"
  | (base) "\<forall>p\<in>set (pieces (gameState room')). position p = - 1"
      "diceValue (gameState room') = None"
  | (rolled) room u roll where "rooms mgr c = Some room"
      "rollDiceRoom room clientId u = Inr (room', roll)"
  | (moved) room pieceId' captured where "rooms mgr c = Some room"
      "movePieceRoom room clientId pieceId' = Inr (room', captured)"
    by (elim disjE exE conjE) auto
  then show ?thesis
  proof cases
    case same
    with assms(2) show ?thesis by (auto simp add: positionStep_def)
  next
    case base
    with assms(2) show ?thesis by simp
  next
    case rolled
    with assms(2) rollDiceRoom_pieces[OF rolled(2)] show ?thesis
      by (auto simp add: positionStep_def)
  next
    case moved
    with assms(2) movePieceRoom_positions[OF moved(2)] show ?thesis by auto
  qed
qed

lemma reachable_run: "reachable mgr \<Longrightarrow> reachable (run mgr evs)"
proof (induction evs arbitrary: mgr)
  case Nil
  then show ?case by simp
next
  case (Cons ev evs)
  obtain clientId msg where ev: "ev = (clientId, msg)" by (cases ev)
  from Cons.prems have "reachable (handleMessage mgr clientId msg)" by (rule reachable_step)
  from Cons.IH[OF this] ev show ?case by simp
qed

text \<open>
  Claim C8. In every manager the server can reach, every piece of every room is at
  position -1, or between 0 and 56, or at 99. Any further message leaves a piece in
  base (as created or captured), or leaves its position as it was, or moves it from
  base to 0 on a 6, or adds the stored roll to a position off base, with a sum of at
  most 56 stored as it is and a sum of exactly 57 stored as 99; so a piece that is at 99
  after a message was at 99 before, or stood exactly the stored roll short of 57.
\<close>

theorem piece_positions_in_domain:
  assumes "reachable mgr"
  shows
    "(\<forall>c room. rooms mgr c = Some room \<longrightarrow>
        (\<forall>p\<in>set (pieces (gameState room)).
            position p = - 1 \<or> (0 \<le> position p \<and> position p \<le> 56) \<or> position p = 99)) \<and>
     (\<forall>c room' k.
        rooms (handleMessage mgr clientId msg) c = Some room' \<and>
        k < length (pieces (gameState room')) \<longrightarrow>
          position (pieces (gameState room') ! k) = - 1 \<or>
          (\<exists>room. rooms mgr c = Some room \<and> k < length (pieces (gameState room)) \<and>
             positionStep (diceValue (gameState room))
               (position (pieces (gameState room) ! k))
               (position (pieces (gameState room') ! k)))) \<and>
     (\<forall>c room' k.
        rooms (handleMessage mgr clientId msg) c = Some room' \<and>
        k < length (pieces (gameState room')) \<and>
        position (pieces (gameState room') ! k) = 99 \<longrightarrow>
          (\<exists>room. rooms mgr c = Some room \<and> k < length (pieces (gameState room)) \<and>
             (position (pieces (gameState room) ! k) = 99 \<or>
              (\<exists>roll. diceValue (gameState room) = Some roll \<and>
                 position (pieces (gameState room) ! k) + roll = 57))))"
proof -
  have inv: "position p = - 1 \<or> (0 \<le> position p \<and> position p \<le> 56) \<or> position p = 99"
    if "rooms mgr c = Some room" "p \<in> set (pieces (gameState room))" for c room p
    using reachable_roomOk[OF assms that(1)] that(2)
    by (auto simp add: roomOk_def list_all_iff positionOk_def)
  have step: "position (pieces (gameState room') ! k) = - 1 \<or>
          (\<exists>room. rooms mgr c = Some room \<and> k < length (pieces (gameState room)) \<and>
             positionStep (diceValue (gameState room))
               (position (pieces (gameState room) ! k))
               (position (pieces (gameState room') ! k)))"
    if "rooms (handleMessage mgr clientId msg) c = Some room'"
      "k < length (pieces (gameState room'))" for c room' k
    using that by (rule handleMessage_positions)
  have home: "\<exists>room. rooms mgr c = Some room \<and> k < length (pieces (gameState room)) \<and>
             (position (pieces (gameState room) ! k) = 99 \<or>
              (\<exists>roll. diceValue (gameState room) = Some roll \<and>
                 position (pieces (gameState room) ! k) + roll = 57))"
    if "rooms (handleMessage mgr clientId msg) c = Some room'"
      "k < length (pieces (gameState room'))"
      "position (pieces (gameState room') ! k) = 99" for c room' k
    using step[OF that(1,2)] that(3)
    by (auto simp add: positionStep_def split: option.splits)
  from inv step home show ?thesis by blast
qed

section \<open>Example sessions\<close>

lemmas registry_defs = handleMessage_def createRoom_def joinRoom_def chooseColor_def
  chooseColorRoom_def setReady_def setReadyRoom_def startGame_def startGameRoom_def
  canStartGame_def piecesOf_def leaveRoom_def maxPlayers_def emptyManager_def
  PLAYER_COLORS_2P_def PLAYER_COLORS_4P_def

lemma run_append: "run mgr (evs @ evs') = run (run mgr evs) evs'"
  by (induction evs arbitrary: mgr) auto

lemma run_lobbyTrace: "run emptyManager lobbyTrace = lobbyManager"
  by (simp add: lobbyTrace_def registry_defs example_defs Let_def)

lemma start_lobby: "handleMessage lobbyManager ''ann'' Start_game = managerOf startedRoom"
  by (simp add: registry_defs example_defs managerOf_def Let_def)

lemma roll_six_opening:
  "handleMessage (managerOf startedRoom) ''ann'' (Roll_dice (99 / 100)) =
     managerOf (startedRoom\<lparr> gameState := (gameState startedRoom)
        \<lparr> diceValue := Some 6, isFirstRollOfTurn := False, waitingForMove := True \<rparr> \<rparr>)"
  by (simp add: manager_defs dice_defs move_defs)

lemma roll_one_opening:
  "handleMessage (managerOf startedRoom) ''ann'' (Roll_dice 0) =
     managerOf (startedRoom\<lparr> gameState := (gameState startedRoom)
        \<lparr> lastDiceValue := Some 1, currentTurnIndex := 1 \<rparr> \<rparr>)"
  by (simp add: manager_defs dice_defs move_defs)

lemma bob_leaves:
  "handleMessage (managerOf (startedRoom\<lparr> gameState := (gameState startedRoom)
        \<lparr> lastDiceValue := Some 1, currentTurnIndex := 1 \<rparr> \<rparr>)) ''bob'' Leave =
     \<lparr> rooms = [''A1B2C3'' \<mapsto>
          startedRoom\<lparr> players := [\<lparr> playerId = ''ann'', playerName = ''Ann'',
                                      playerColor = Some Red, ready = True \<rparr>],
                       gameState := (gameState startedRoom)
                         \<lparr> lastDiceValue := Some 1, currentTurnIndex := 1 \<rparr> \<rparr>],
       playerToRoom = [''ann'' \<mapsto> ''A1B2C3''] \<rparr>"
  by (simp add: handleMessage_def leaveRoom_def managerOf_def example_defs Let_def fun_upd_twist)


lemma run_openingTrace:
  "run emptyManager openingTrace =
     managerOf (startedRoom\<lparr> gameState := (gameState startedRoom)
        \<lparr> diceValue := Some 6, isFirstRollOfTurn := False, waitingForMove := True \<rparr> \<rparr>)"
  by (simp only: openingTrace_def run_append run_lobbyTrace run.simps start_lobby
        roll_six_opening)

lemma run_leaveTrace:
  "run emptyManager leaveTrace =
     \<lparr> rooms = [''A1B2C3'' \<mapsto>
          startedRoom\<lparr> players := [\<lparr> playerId = ''ann'', playerName = ''Ann'',
                                      playerColor = Some Red, ready = True \<rparr>],
                       gameState := (gameState startedRoom)
                         \<lparr> lastDiceValue := Some 1, currentTurnIndex := 1 \<rparr> \<rparr>],
       playerToRoom = [''ann'' \<mapsto> ''A1B2C3''] \<rparr>"
  by (simp only: leaveTrace_def run_append run_lobbyTrace run.simps start_lobby
        roll_one_opening bob_leaves)

theorem piece_positions_in_domain_witness:
  "reachable (run emptyManager openingTrace) \<and>
   (\<exists>room. rooms (run emptyManager openingTrace) ''A1B2C3'' = Some room \<and>
      length (pieces (gameState room)) = 8 \<and>
      diceValue (gameState room) = Some 6 \<and>
      list_all (\<lambda>p. position p = - 1 \<or> (0 \<le> position p \<and> position p \<le> 56) \<or>
                     position p = 99)
               (pieces (gameState room))) \<and>
   (\<exists>room'. rooms (handleMessage (run emptyManager openingTrace) ''ann''
                      (Move_piece ''red-0'')) ''A1B2C3'' = Some room' \<and>
      position (pieces (gameState room') ! 0) = 0 \<and>
      positionStep (Some 6) (- 1) (position (pieces (gameState room') ! 0)))"
proof -
  let ?mgr = "run emptyManager openingTrace"
  let ?room = "startedRoom\<lparr> gameState := (gameState startedRoom)
        \<lparr> diceValue := Some 6, isFirstRollOfTurn := False, waitingForMove := True \<rparr> \<rparr>"
  have reach: "reachable ?mgr"
    by (rule reachable_run) (rule reachable_init)
  have room: "rooms ?mgr ''A1B2C3'' = Some ?room"
    by (simp add: run_openingTrace managerOf_def)
  have moved: "\<exists>room'. rooms (handleMessage ?mgr ''ann'' (Move_piece ''red-0'')) ''A1B2C3''
                   = Some room' \<and>
                 length (pieces (gameState room')) = 8 \<and>
                 position (pieces (gameState room') ! 0) = 0"
    unfolding run_openingTrace by (simp add: manager_defs move_defs)
  then obtain room' where room':
    "rooms (handleMessage ?mgr ''ann'' (Move_piece ''red-0'')) ''A1B2C3'' = Some room'"
    "length (pieces (gameState room')) = 8" "position (pieces (gameState room') ! 0) = 0"
    by blast
  note inst = piece_positions_in_domain[OF reach, of "''ann''" "Move_piece ''red-0''"]
  from inst room have "list_all (\<lambda>p. position p = - 1 \<or> (0 \<le> position p \<and> position p \<le> 56) \<or>
                     position p = 99) (pieces (gameState ?room))"
    unfolding list_all_iff by blast
  moreover from inst room' room have
    "positionStep (Some 6) (- 1) (position (pieces (gameState room') ! 0))"
    by (simp add: positionStep_def)
  ultimately show ?thesis using reach room room' by (simp add: example_defs)
qed

section \<open>The turn index after a player leaves\<close>

text \<open>
  Claim C1 does not hold of the code. Ann and Bob start a two-player game, Ann rolls a 1
  with all her pieces in base, so the turn index becomes 1, and Bob leaves. The room
  keeps the single player Ann and the turn index 1, which indexes no player: the
  game is started, and every later \<open>rollDice\<close> or \<open>movePiece\<close> of Ann's reads
  \<open>players[1].id\<close> and throws a \<open>TypeError\<close>.
\<close>

theorem turn_index_dangles_after_leave:
  "reachable (run emptyManager leaveTrace) \<and>
   (\<exists>room. rooms (run emptyManager leaveTrace) ''A1B2C3'' = Some room \<and>
      started (gameState room) \<and>
      length (players room) = 1 \<and>
      currentTurnIndex (gameState room) = 1 \<and>
      \<not> currentTurnIndex (gameState room) < length (players room)) \<and>
   rollDice (run emptyManager leaveTrace) ''ann'' u = Inl TypeError \<and>
   movePiece (run emptyManager leaveTrace) ''ann'' pieceId' = Inl TypeError"
proof -
  have "reachable (run emptyManager leaveTrace)"
    by (rule reachable_run) (rule reachable_init)
  then show ?thesis
    unfolding run_leaveTrace
    by (simp add: rollDice_def movePiece_def rollDiceRoom_def movePieceRoom_def example_defs)
qed

section \<open>The bias seed and the piece ids of reachable rooms\<close>

lemma rollDiceRoom_seed:
  assumes "rollDiceRoom room pid u = Inr (room', roll)"
    and "seedOk (lastDiceValue (gameState room))"
  shows "seedOk (lastDiceValue (gameState room'))"
proof -
  note range = rollWeightedDice_range[of room u]
  from assms range show ?thesis
    unfolding rollDiceRoom_def Let_def seedOk_def
    by (auto split: if_splits)
qed

lemma movePieceRoom_seed:
  assumes "movePieceRoom room pid pieceId' = Inr (room', captured)"
    and "seedOk (lastDiceValue (gameState room))" and "diceOk (diceValue (gameState room))"
  shows "seedOk (lastDiceValue (gameState room'))"
proof -
  from assms(1) obtain roll i where
    roll: "diceValue (gameState room) = Some roll"
    and room': "room' = finishMove room (players room ! currentTurnIndex (gameState room)) roll
               (fst (applyMove (pieces (gameState room)) i roll)) captured"
    by (rule movePieceRoom_success)
  from roll assms(3) have "1 \<le> roll \<and> roll \<le> 6" by (simp add: diceOk_def)
  with assms(2) show ?thesis
    unfolding room' finishMove_def Let_def seedOk_def by auto
qed

lemma handleMessage_seed:
  assumes "\<forall>c room. rooms mgr c = Some room \<longrightarrow>
             roomOk room \<and> seedOk (lastDiceValue (gameState room))"
    and "rooms (handleMessage mgr clientId msg) c = Some room'"
  shows "seedOk (lastDiceValue (gameState room'))"
proof -
  from handleMessage_cases[OF assms(2)]
  consider
    (same) room where "rooms mgr c = Some room" "gameState room' = gameState room"
  | (base) "lastDiceValue (gameState room') = None"
  | (rolled) room u roll where "rooms mgr c = Some room"
      "rollDiceRoom room clientId u = Inr (room', roll)"
  | (moved) room pieceId' captured where "rooms mgr c = Some room"
      "movePieceRoom room clientId pieceId' = Inr (room', captured)"
    by (elim disjE exE conjE) auto
  then show ?thesis
  proof cases
    case same
    with assms(1) show ?thesis by auto
  next
    case base
    then show ?thesis by (simp add: seedOk_def)
  next
    case rolled
    with assms(1) have "seedOk (lastDiceValue (gameState room))" by blast
    with rolled(2) show ?thesis by (rule rollDiceRoom_seed)
  next
    case moved
    with assms(1) have "seedOk (lastDiceValue (gameState room))"
      "diceOk (diceValue (gameState room))" by (auto simp add: roomOk_def)
    with moved(2) show ?thesis by (rule movePieceRoom_seed)
  qed
qed

text \<open>In a reachable room the previous player's final roll, when there is one, is
  between 1 and 5: a 6 never ends a turn.\<close>

lemma reachable_seed:
  "reachable mgr \<Longrightarrow> rooms mgr c = Some room \<Longrightarrow>
     roomOk room \<and> seedOk (lastDiceValue (gameState room))"
proof (induction arbitrary: c room rule: reachable.induct)
  case reachable_init
  then show ?case by (simp add: emptyManager_def)
next
  case (reachable_step mgr clientId msg)
  have "roomOk room"
    by (rule handleMessage_roomOk[OF _ reachable_step.prems]) (simp add: reachable_step.IH)
  moreover have "seedOk (lastDiceValue (gameState room))"
    by (rule handleMessage_seed[OF _ reachable_step.prems]) (simp add: reachable_step.IH)
  ultimately show ?case by simp
qed

lemma idNamesColor_hd:
  assumes "idNamesColor p"
  shows "hd (pieceId p) = hd (colorName (pieceColor p))"
proof -
  from assms have "take (length (colorName (pieceColor p)) + 1) (pieceId p) =
                     colorName (pieceColor p) @ ''-''"
    by (simp add: idNamesColor_def)
  then have "hd (take (length (colorName (pieceColor p)) + 1) (pieceId p)) =
               hd (colorName (pieceColor p) @ ''-'')" by simp
  moreover have "colorName (pieceColor p) \<noteq> []" by (cases "pieceColor p") simp_all
  ultimately show ?thesis by (cases "pieceId p") simp_all
qed

lemma colorName_hd_inj: "hd (colorName a) = hd (colorName b) \<Longrightarrow> a = b"
  by (cases a; cases b) simp_all

lemma same_id_same_color:
  "idNamesColor p \<Longrightarrow> idNamesColor q \<Longrightarrow> pieceId p = pieceId q \<Longrightarrow> pieceColor p = pieceColor q"
  using idNamesColor_hd[of p] idNamesColor_hd[of q] colorName_hd_inj by simp

lemma movePieceRoom_ids:
  assumes "movePieceRoom room pid pieceId' = Inr (room', captured)"
    and "list_all idNamesColor (pieces (gameState room))"
  shows "list_all idNamesColor (pieces (gameState room'))"
proof -
  from assms(1) obtain roll i where
    i: "findIndex (\<lambda>p. pieceId p = pieceId') (pieces (gameState room)) = Some i"
    and room': "room' = finishMove room (players room ! currentTurnIndex (gameState room)) roll
               (fst (applyMove (pieces (gameState room)) i roll)) captured"
    by (rule movePieceRoom_success)
  let ?ps = "pieces (gameState room)"
  from findIndex_Some[OF i] have ilen: "i < length ?ps" by simp
  have ps': "pieces (gameState room') = fst (applyMove ?ps i roll)"
    unfolding room' by (simp add: finishMove_fields)
  have "idNamesColor (fst (applyMove ?ps i roll) ! k)" if k: "k < length ?ps" for k
  proof -
    from assms(2) k ilen have "idNamesColor (?ps ! k)" "idNamesColor (?ps ! i)"
      by (simp_all add: list_all_length)
    then show ?thesis
      using applyMove_nth[OF ilen k refl, of roll]
      by (simp add: idNamesColor_def split: if_splits)
  qed
  then show ?thesis by (simp add: ps' list_all_length length_applyMove)
qed

lemma handleMessage_ids:
  assumes "\<forall>c room. rooms mgr c = Some room \<longrightarrow> list_all idNamesColor (pieces (gameState room))"
    and "rooms (handleMessage mgr clientId msg) c = Some room'"
  shows "list_all idNamesColor (pieces (gameState room'))"
proof -
  from handleMessage_cases[OF assms(2)]
  consider
    (same) room where "rooms mgr c = Some room" "gameState room' = gameState room"
  | (base) "\<forall>p\<in>set (pieces (gameState room')). idNamesColor p"
  | (rolled) room u roll where "rooms mgr c = Some room"
      "rollDiceRoom room clientId u = Inr (room', roll)"
  | (moved) room pieceId' captured where "rooms mgr c = Some room"
      "movePieceRoom room clientId pieceId' = Inr (room', captured)"
    by (elim disjE exE conjE) auto
  then show ?thesis
  proof cases
    case same
    with assms(1) show ?thesis by auto
  next
    case base
    then show ?thesis by (simp add: list_all_iff)
  next
    case rolled
    with assms(1) rollDiceRoom_pieces[OF rolled(2)] show ?thesis by auto
  next
    case moved
    with assms(1) have "list_all idNamesColor (pieces (gameState room))" by blast
    with moved(2) show ?thesis by (rule movePieceRoom_ids)
  qed
qed

text \<open>In a reachable room two pieces with the same id have the same colour, which
  is what the capture rule above asks of the room.\<close>

lemma reachable_ids:
  "reachable mgr \<Longrightarrow> rooms mgr c = Some room \<Longrightarrow>
     list_all idNamesColor (pieces (gameState room))"
proof (induction arbitrary: c room rule: reachable.induct)
  case reachable_init
  then show ?case by (simp add: emptyManager_def)
next
  case (reachable_step mgr clientId msg)
  show ?case
    by (rule handleMessage_ids[OF _ reachable_step.prems]) (simp add: reachable_step.IH)
qed

lemma reachable_same_id_same_color:
  assumes "reachable mgr" and "rooms mgr c = Some room"
    and "p \<in> set (pieces (gameState room))" and "q \<in> set (pieces (gameState room))"
    and "pieceId p = pieceId q"
  shows "pieceColor p = pieceColor q"
  using reachable_ids[OF assms(1,2)] assms(3-5) same_id_same_color
  by (auto simp add: list_all_iff)

section \<open>The weights the die uses\<close>

lemma rollWeightedDice_roomWeights:
  "rollWeightedDice room u = sampleRoll (normalizeWeights (roomWeights room)) u"
  by (simp add: rollWeightedDice_def roomWeights_def rollerAllInBase_def Let_def)

lemma diceWeights_seeded:
  assumes "1 \<le> k" and "k \<le> 5"
  shows "diceWeights False (Some k) True =
           map (\<lambda>i. if i = k - 1 then 2
                    else if i = 5
                      then 25 + (3 / 2) * (([15, 15, 15, 15, 15, 25] ! nat (k - 1) - 2) / 5)
                    else 15 + (7 / 8) * (([15, 15, 15, 15, 15, 25] ! nat (k - 1) - 2) / 5))
               [0, 1, 2, 3, 4, 5]"
proof -
  from assms have "k = 1 \<or> k = 2 \<or> k = 3 \<or> k = 4 \<or> k = 5" by arith
  then show ?thesis by (elim disjE) (simp_all add: diceWeights_after)
qed

text \<open>
  Claim C2. In every room the server reaches, the weights \<open>rollWeightedDice\<close> samples
  from are the normalised \<open>roomWeights\<close>, \<open>rollerAllInBase\<close> says that every piece of the
  roller's colour is at -1, and the weights are: \<open>[10,10,10,10,10,50]\<close> when all
  of the roller's pieces are at -1, whatever the previous roll; otherwise, when there
  is a previous final roll \<open>k\<close> and this is the roller's first roll of the turn, the
  baseline \<open>[15,15,15,15,15,25]\<close> with the weight at index \<open>k - 1\<close> set to 2, face 6
  (index 5) raised by 1.5 times the even share (original minus 2, over five) and each
  of the remaining four faces raised by 0.875 times it, where \<open>k\<close> is one of 1 to 5; and
  otherwise the baseline.
\<close>

theorem weighted_die_weights:
  assumes "reachable mgr" and "rooms mgr c = Some room"
  shows
    "rollWeightedDice room u = sampleRoll (normalizeWeights (roomWeights room)) u \<and>
     rollerAllInBase room =
       (\<forall>p\<in>set (pieces (gameState room)).
          Some (pieceColor p) = playerColor (players room ! currentTurnIndex (gameState room))
            \<longrightarrow> position p = - 1) \<and>
     (rollerAllInBase room \<longrightarrow> roomWeights room = [10, 10, 10, 10, 10, 50]) \<and>
     (\<forall>k. \<not> rollerAllInBase room \<and> lastDiceValue (gameState room) = Some k \<and>
          isFirstRollOfTurn (gameState room) \<longrightarrow>
          1 \<le> k \<and> k \<le> 5 \<and>
          roomWeights room =
            map (\<lambda>i. if i = k - 1 then 2
                     else if i = 5
                       then 25 + (3 / 2) * (([15, 15, 15, 15, 15, 25] ! nat (k - 1) - 2) / 5)
                     else 15 + (7 / 8) * (([15, 15, 15, 15, 15, 25] ! nat (k - 1) - 2) / 5))
                [0, 1, 2, 3, 4, 5]) \<and>
     (\<not> rollerAllInBase room \<and>
      (lastDiceValue (gameState room) = None \<or> \<not> isFirstRollOfTurn (gameState room)) \<longrightarrow>
        roomWeights room = [15, 15, 15, 15, 15, 25])"
proof -
  have override: "roomWeights room = [10, 10, 10, 10, 10, 50]" if "rollerAllInBase room"
    using that by (simp add: roomWeights_def diceWeights_allInBase)
  have seeded: "1 \<le> k \<and> k \<le> 5 \<and>
          roomWeights room =
            map (\<lambda>i. if i = k - 1 then 2
                     else if i = 5
                       then 25 + (3 / 2) * (([15, 15, 15, 15, 15, 25] ! nat (k - 1) - 2) / 5)
                     else 15 + (7 / 8) * (([15, 15, 15, 15, 15, 25] ! nat (k - 1) - 2) / 5))
                [0, 1, 2, 3, 4, 5]"
    if k: "\<not> rollerAllInBase room \<and> lastDiceValue (gameState room) = Some k \<and>
          isFirstRollOfTurn (gameState room)" for k
  proof -
    from reachable_seed[OF assms] k have range: "1 \<le> k" "k \<le> 5"
      by (simp_all add: seedOk_def)
    from k have "roomWeights room = diceWeights False (Some k) True"
      by (simp add: roomWeights_def)
    with range diceWeights_seeded[OF range] show ?thesis by simp
  qed
  have baseline: "roomWeights room = [15, 15, 15, 15, 15, 25]"
    if "\<not> rollerAllInBase room \<and>
      (lastDiceValue (gameState room) = None \<or> \<not> isFirstRollOfTurn (gameState room))"
    using that by (auto simp add: roomWeights_def diceWeights_noSeed diceWeights_laterRoll)
  have own: "rollerAllInBase room =
       (\<forall>p\<in>set (pieces (gameState room)).
          Some (pieceColor p) = playerColor (players room ! currentTurnIndex (gameState room))
            \<longrightarrow> position p = - 1)"
    by (auto simp add: rollerAllInBase_def Let_def list_all_iff)
  from rollWeightedDice_roomWeights own override seeded baseline show ?thesis by blast
qed


lemma move_after_six:
  "handleMessage
     (managerOf (startedRoom\<lparr> gameState := (gameState startedRoom)
        \<lparr> diceValue := Some 6, isFirstRollOfTurn := False, waitingForMove := True \<rparr> \<rparr>))
     ''ann'' (Move_piece ''red-0'') =
   managerOf (startedRoom\<lparr> gameState := (gameState startedRoom)
        \<lparr> pieces := placed [0, - 1, - 1, - 1, - 1, - 1, - 1, - 1],
          isFirstRollOfTurn := False \<rparr> \<rparr>)"
  by (simp add: manager_defs move_defs)

lemma roll_one_on_track:
  "handleMessage
     (managerOf (startedRoom\<lparr> gameState := (gameState startedRoom)
        \<lparr> pieces := placed [0, - 1, - 1, - 1, - 1, - 1, - 1, - 1],
          isFirstRollOfTurn := False \<rparr> \<rparr>))
     ''ann'' (Roll_dice 0) =
   managerOf (startedRoom\<lparr> gameState := (gameState startedRoom)
        \<lparr> pieces := placed [0, - 1, - 1, - 1, - 1, - 1, - 1, - 1],
          diceValue := Some 1, isFirstRollOfTurn := False, waitingForMove := True \<rparr> \<rparr>)"
  by (simp add: manager_defs dice_defs move_defs)

lemma move_one_on_track:
  "handleMessage
     (managerOf (startedRoom\<lparr> gameState := (gameState startedRoom)
        \<lparr> pieces := placed [0, - 1, - 1, - 1, - 1, - 1, - 1, - 1],
          diceValue := Some 1, isFirstRollOfTurn := False, waitingForMove := True \<rparr> \<rparr>))
     ''ann'' (Move_piece ''red-0'') =
   managerOf (startedRoom\<lparr> gameState := (gameState startedRoom)
        \<lparr> pieces := placed [1, - 1, - 1, - 1, - 1, - 1, - 1, - 1],
          lastDiceValue := Some 1, currentTurnIndex := 1 \<rparr> \<rparr>)"
  by (simp add: manager_defs move_defs)

lemma bob_rolls_one:
  "handleMessage
     (managerOf (startedRoom\<lparr> gameState := (gameState startedRoom)
        \<lparr> pieces := placed [1, - 1, - 1, - 1, - 1, - 1, - 1, - 1],
          lastDiceValue := Some 1, currentTurnIndex := 1 \<rparr> \<rparr>))
     ''bob'' (Roll_dice 0) =
   managerOf (startedRoom\<lparr> gameState := (gameState startedRoom)
        \<lparr> pieces := placed [1, - 1, - 1, - 1, - 1, - 1, - 1, - 1],
          lastDiceValue := Some 1 \<rparr> \<rparr>)"
  by (simp add: manager_defs dice_defs move_defs)

lemma run_seededTrace:
  "run emptyManager seededTrace =
     managerOf (startedRoom\<lparr> gameState := (gameState startedRoom)
        \<lparr> pieces := placed [1, - 1, - 1, - 1, - 1, - 1, - 1, - 1],
          lastDiceValue := Some 1 \<rparr> \<rparr>)"
  by (simp only: seededTrace_def run_append run_lobbyTrace run.simps start_lobby
        roll_six_opening move_after_six roll_one_on_track move_one_on_track bob_rolls_one)

theorem weighted_die_weights_witness:
  "reachable (run emptyManager seededTrace) \<and>
   (\<exists>room. rooms (run emptyManager seededTrace) ''A1B2C3'' = Some room \<and>
      \<not> rollerAllInBase room \<and>
      lastDiceValue (gameState room) = Some 1 \<and>
      isFirstRollOfTurn (gameState room) \<and>
      roomWeights room = [2, 691 / 40, 691 / 40, 691 / 40, 691 / 40, 289 / 10] \<and>
      rollWeightedDice room (1 / 2) = 4)"
proof -
  let ?room = "startedRoom\<lparr> gameState := (gameState startedRoom)
        \<lparr> pieces := placed [1, - 1, - 1, - 1, - 1, - 1, - 1, - 1],
          lastDiceValue := Some 1 \<rparr> \<rparr>"
  have reach: "reachable (run emptyManager seededTrace)"
    by (rule reachable_run) (rule reachable_init)
  have room: "rooms (run emptyManager seededTrace) ''A1B2C3'' = Some ?room"
    by (simp add: run_seededTrace managerOf_def)
  have state: "\<not> rollerAllInBase ?room" "lastDiceValue (gameState ?room) = Some 1"
    "isFirstRollOfTurn (gameState ?room)"
    by (simp_all add: rollerAllInBase_def move_defs)
  from weighted_die_weights[OF reach room, of "1 / 2"] state
  have weights: "roomWeights ?room = [2, 691 / 40, 691 / 40, 691 / 40, 691 / 40, 289 / 10]"
    and roll: "rollWeightedDice ?room (1 / 2) = sampleRoll (normalizeWeights (roomWeights ?room)) (1 / 2)"
    by simp_all
  from roll weights have "rollWeightedDice ?room (1 / 2) = 4"
    by (simp add: sampleRoll_def normalizeWeights_def)
  with reach room state weights show ?thesis by blast
qed

section \<open>Rolling after the game is won\<close>

lemmas play_defs = homeRun_def eval_nat_numeral manager_defs dice_defs move_defs

lemma first_home:
  "run (managerOf startedRoom) (homeRun ''red-0'' @ [(''bob'', Roll_dice 0)]) =
     managerOf (startedRoom\<lparr> gameState := (gameState startedRoom)
        \<lparr> pieces := placed [99, - 1, - 1, - 1, - 1, - 1, - 1, - 1],
          lastDiceValue := Some 1 \<rparr> \<rparr>)"
  by (simp add: play_defs)

lemma second_home:
  "run (managerOf (startedRoom\<lparr> gameState := (gameState startedRoom)
        \<lparr> pieces := placed [99, - 1, - 1, - 1, - 1, - 1, - 1, - 1],
          lastDiceValue := Some 1 \<rparr> \<rparr>))
       (homeRun ''red-1'' @ [(''bob'', Roll_dice 0)]) =
     managerOf (startedRoom\<lparr> gameState := (gameState startedRoom)
        \<lparr> pieces := placed [99, 99, - 1, - 1, - 1, - 1, - 1, - 1],
          lastDiceValue := Some 1 \<rparr> \<rparr>)"
  by (simp add: play_defs)

lemma third_home:
  "run (managerOf (startedRoom\<lparr> gameState := (gameState startedRoom)
        \<lparr> pieces := placed [99, 99, - 1, - 1, - 1, - 1, - 1, - 1],
          lastDiceValue := Some 1 \<rparr> \<rparr>))
       (homeRun ''red-2'' @ [(''bob'', Roll_dice 0)]) =
     managerOf (startedRoom\<lparr> gameState := (gameState startedRoom)
        \<lparr> pieces := placed [99, 99, 99, - 1, - 1, - 1, - 1, - 1],
          lastDiceValue := Some 1 \<rparr> \<rparr>)"
  by (simp add: play_defs)

lemma fourth_home:
  "run (managerOf (startedRoom\<lparr> gameState := (gameState startedRoom)
        \<lparr> pieces := placed [99, 99, 99, - 1, - 1, - 1, - 1, - 1],
          lastDiceValue := Some 1 \<rparr> \<rparr>))
       (homeRun ''red-3'') =
     managerOf (startedRoom\<lparr> gameState := (gameState startedRoom)
        \<lparr> pieces := placed [99, 99, 99, 99, - 1, - 1, - 1, - 1],
          lastDiceValue := Some 1, isFirstRollOfTurn := False, winner := Some Red \<rparr> \<rparr>)"
  by (simp add: play_defs)

lemma run_winTrace:
  "run emptyManager winTrace =
     managerOf (startedRoom\<lparr> gameState := (gameState startedRoom)
        \<lparr> pieces := placed [99, 99, 99, 99, - 1, - 1, - 1, - 1],
          lastDiceValue := Some 1, isFirstRollOfTurn := False, winner := Some Red \<rparr> \<rparr>)"
proof -
  have "run emptyManager winTrace =
          run (run (run (run (run (run emptyManager lobbyTrace) [(''ann'', Start_game)])
            (homeRun ''red-0'' @ [(''bob'', Roll_dice 0)]))
            (homeRun ''red-1'' @ [(''bob'', Roll_dice 0)]))
            (homeRun ''red-2'' @ [(''bob'', Roll_dice 0)]))
            (homeRun ''red-3'')"
    by (simp only: winTrace_def run_append)
  then show ?thesis
    by (simp only: run_lobbyTrace run.simps start_lobby first_home second_home third_home
          fourth_home)
qed

lemma roll_after_win:
  "rollDice
     (managerOf (startedRoom\<lparr> gameState := (gameState startedRoom)
        \<lparr> pieces := placed [99, 99, 99, 99, - 1, - 1, - 1, - 1],
          lastDiceValue := Some 1, isFirstRollOfTurn := False, winner := Some Red \<rparr> \<rparr>))
     ''ann'' 0 =
   Inr (managerOf (startedRoom\<lparr> gameState := (gameState startedRoom)
          \<lparr> pieces := placed [99, 99, 99, 99, - 1, - 1, - 1, - 1],
            lastDiceValue := Some 1, currentTurnIndex := 1, winner := Some Red \<rparr> \<rparr>),
        Some (startedRoom\<lparr> gameState := (gameState startedRoom)
          \<lparr> pieces := placed [99, 99, 99, 99, - 1, - 1, - 1, - 1],
            lastDiceValue := Some 1, currentTurnIndex := 1, winner := Some Red \<rparr> \<rparr>, 1))"
  by (simp add: manager_defs dice_defs move_defs)

text \<open>
  Claim C4 does not hold of the code. Ann and Bob play a two-player game in which Ann
  brings all four red pieces home; her last move records red as the winner and keeps
  the turn index at 0. Ann then rolls again: \<open>rollDice\<close> accepts the roll, the die
  gives a 1, no red piece can move, and the turn index advances to 1 although a winner
  is set.
\<close>

theorem turn_index_moves_after_win:
  "reachable (run emptyManager winTrace) \<and>
   (\<exists>room. rooms (run emptyManager winTrace) ''A1B2C3'' = Some room \<and>
      winner (gameState room) = Some Red \<and>
      currentTurnIndex (gameState room) = 0) \<and>
   (\<exists>mgr' room'. rollDice (run emptyManager winTrace) ''ann'' 0 = Inr (mgr', Some (room', 1)) \<and>
      rooms mgr' ''A1B2C3'' = Some room' \<and>
      winner (gameState room') = Some Red \<and>
      currentTurnIndex (gameState room') = 1)"
proof -
  have "reachable (run emptyManager winTrace)"
    by (rule reachable_run) (rule reachable_init)
  then show ?thesis
    unfolding run_winTrace roll_after_win
    by (simp add: managerOf_def example_defs)
qed

end
